theory Spec2Isabelle
  imports Main "HOL-Library.Multiset"
begin

section \<open>Align Anything: the editor extension \<open>src/extension.js\<close>\<close>

text \<open>
  The extension aligns the first match of a regular expression on each selected line by
  inserting spaces before the matches that are left of the rightmost one. This theory
  embeds \<open>createRegExp\<close>, \<open>alignComments\<close>, \<open>alignAssignmentOperators\<close> and
  \<open>alignCustomPattern\<close> as HOL functions over an explicit host state, and proves the
  properties of the specification about them.

  Strings are lists of code units, columns and line indices are natural numbers, the
  running maximum \<open>rightmostChar\<close> is an integer because the source starts it at \<open>-1\<close>.
\<close>

subsection \<open>Positions, ranges and selections of the host editor\<close>

datatype position = Position (line: nat) (character: nat)

definition isBefore :: "position \<Rightarrow> position \<Rightarrow> bool" where
  "isBefore a b =
     (if line a < line b then True
      else if line b < line a then False
      else character a < character b)"

datatype text_range = Range (range_start: position) (range_end: position)

text \<open>
  The constructor of the host's range class orders its two end points: the start of a
  range is never after its end.
\<close>

definition new_Range :: "position \<Rightarrow> position \<Rightarrow> text_range" where
  "new_Range a b = (if isBefore b a then Range b a else Range a b)"

text \<open>
  A selection is the range between its anchor and its active end (the cursor); its
  \<open>start\<close> and \<open>end\<close> are those of that range. It \<open>isEmpty\<close> when both coincide.
\<close>

datatype selection = Selection (anchor: position) (active: position)

definition selection_start :: "selection \<Rightarrow> position" where
  "selection_start s = range_start (new_Range (anchor s) (active s))"

definition selection_end :: "selection \<Rightarrow> position" where
  "selection_end s = range_end (new_Range (anchor s) (active s))"

definition isEmpty :: "selection \<Rightarrow> bool" where
  "isEmpty s = (selection_start s = selection_end s)"

subsection \<open>Messages and failures\<close>

text \<open>
  One constructor for each call of \<open>showErrorMessage\<close> in the source, carrying the
  values the message interpolates:
  \<^item> \<open>InvalidPattern msg\<close>: the message of the error thrown by \<open>new RegExp\<close>;
  \<^item> \<open>InvalidArgument v\<close>: \<open>Expected a string arg but got: v\<close>;
  \<^item> \<open>NoActiveDocument\<close>: \<open>No editor\<close>;
  \<^item> \<open>InsufficientLines\<close>: \<open>Document should have multiple lines\<close>;
  \<^item> \<open>DuplicateLineSelection n\<close>: \<open>Only 1 selection per line is allowed (line n)\<close>;
  \<^item> \<open>InsufficientSelection\<close>: \<open>Multiple lines must be selected\<close>;
  \<^item> \<open>NoMatchesFound text\<close>: \<open>No matches found for pattern text\<close>, with the text of the
    pattern object;
  \<^item> \<open>SingleMatchFound text\<close>: \<open>Only 1 match found for pattern text\<close>, likewise.
\<close>

datatype message =
    InvalidPattern string
  | InvalidArgument string
  | NoActiveDocument
  | InsufficientLines
  | DuplicateLineSelection nat
  | InsufficientSelection
  | NoMatchesFound string
  | SingleMatchFound string

text \<open>
  \<open>document.lineAt\<close> throws on a line index outside the document. The exception is
  not caught by the extension, so it ends the command.
\<close>

datatype exn = IllegalLine nat

datatype failure = Shown message | Thrown exn

definition lineAt :: "string list \<Rightarrow> nat \<Rightarrow> failure + string" where
  "lineAt document ln =
     (if ln < length document then Inr (document ! ln) else Inl (Thrown (IllegalLine ln)))"

subsection \<open>Strings of the language\<close>

text \<open>
  \<open>s.substring(a, b)\<close> clamps both indices to the length of \<open>s\<close> and swaps them when
  the first is larger; \<open>s.substring(a)\<close> runs to the end of \<open>s\<close>.
\<close>

definition substring :: "string \<Rightarrow> nat \<Rightarrow> nat \<Rightarrow> string" where
  "substring s a b =
     (let a' = min a (length s);
          b' = min b (length s);
          from = min a' b';
          to = max a' b'
      in take (to - from) (drop from s))"

definition substring_from :: "string \<Rightarrow> nat \<Rightarrow> string" where
  "substring_from s a = substring s a (length s)"

text \<open>\<open>backslash\<close> is the character \<open>\\\<close>.\<close>

abbreviation backslash :: char where
  "backslash \<equiv> CHR 0x5C"

subsection \<open>Regular expression objects\<close>

text \<open>
  A regular expression object of the language: its source, its \<open>global\<close> and \<open>sticky\<close>
  flags, its mutable \<open>lastIndex\<close>, and the matcher its pattern compiles to. The matcher
  takes the input and a start index and returns the end index of the match that starts
  exactly there, if there is one.
\<close>

type_synonym matcher = "string \<Rightarrow> nat \<Rightarrow> nat option"

record regexp =
  source :: string
  global :: bool
  sticky :: bool
  lastIndex :: nat
  matcher :: matcher

text \<open>
  The \<open>source\<close> of an object is not the string it was made from: it is that string
  escaped so that it reads as a literal between two slashes. A slash outside a character
  class gets a backslash; a backslash keeps the character after it as it is, unless that
  is a line terminator, which is written as \<open>\\n\<close> or \<open>\\r\<close> with or without a
  backslash before it; the empty pattern becomes \<open>(?:)\<close>. The first argument of
  \<open>escape_source\<close> tells whether the scan is inside a character class.
\<close>

fun escape_source :: "bool \<Rightarrow> string \<Rightarrow> string" where
  "escape_source cls [] = []"
| "escape_source cls (c # cs) =
     (if c = backslash then
        (case cs of
           [] \<Rightarrow> [backslash]
         | d # ds \<Rightarrow>
             if d = CHR 0x0A \<or> d = CHR 0x0D then escape_source cls cs
             else backslash # d # escape_source cls ds)
      else if c = CHR 0x0A then backslash # CHR ''n'' # escape_source cls cs
      else if c = CHR 0x0D then backslash # CHR ''r'' # escape_source cls cs
      else if c = CHR ''/'' \<and> \<not> cls then backslash # CHR ''/'' # escape_source cls cs
      else if c = CHR ''['' then c # escape_source True cs
      else if c = CHR '']'' then c # escape_source False cs
      else c # escape_source cls cs)"

definition EscapeRegExpPattern :: "string \<Rightarrow> string" where
  "EscapeRegExpPattern src = (if src = [] then ''(?:)'' else escape_source False src)"

text \<open>
  The pattern compiler of the language is a parameter of the model: it returns the
  message of the syntax error (\<open>Inl\<close>) or the matcher. \<open>new RegExp(src)\<close>, with no flags
  argument, creates an object with both flags off and \<open>lastIndex = 0\<close>.
\<close>

type_synonym compiler = "string \<Rightarrow> string + matcher"

definition new_RegExp :: "compiler \<Rightarrow> string \<Rightarrow> string + regexp" where
  "new_RegExp compile src =
     (case compile src of
        Inl msg \<Rightarrow> Inl msg
      | Inr m \<Rightarrow>
          Inr \<lparr>source = EscapeRegExpPattern src, global = False, sticky = False, lastIndex = 0,
               matcher = m\<rparr>)"

text \<open>
  The text of an object in a template string (\<open>`${pattern}`\<close>): the source between two
  slashes, followed by the letters of the flags that are set.
\<close>

definition regexp_toString :: "regexp \<Rightarrow> string" where
  "regexp_toString r =
     ''/'' @ source r @ ''/'' @ (if global r then ''g'' else []) @ (if sticky r then ''y'' else [])"

text \<open>
  The search loop of \<open>exec\<close>: try the matcher at \<open>i\<close>, \<open>i + 1\<close>, ... up to and
  including the length of the input, and return the first start index that matches
  together with the end of the match.
\<close>

function search :: "matcher \<Rightarrow> string \<Rightarrow> nat \<Rightarrow> (nat \<times> nat) option" where
  "search m s i =
     (if length s < i then None
      else (case m s i of
              Some e \<Rightarrow> Some (i, e)
            | None \<Rightarrow> search m s (Suc i)))"
  by pat_completeness auto
termination
  by (relation "measure (\<lambda>(m, s, i). Suc (length s) - i)") auto

declare search.simps [simp del]

text \<open>
  \<open>pattern.exec(s)\<close> returns the index of the match (or nothing) and the updated
  object. The search starts at \<open>lastIndex\<close> only when a flag is set, and only then is
  \<open>lastIndex\<close> written; a sticky pattern tries the start index alone.
\<close>

definition exec :: "regexp \<Rightarrow> string \<Rightarrow> nat option \<times> regexp" where
  "exec r s =
     (let flagged = (global r \<or> sticky r);
          i = (if flagged then lastIndex r else 0);
          found = (if sticky r
                   then (if length s < i then None
                         else map_option (\<lambda>e. (i, e)) (matcher r s i))
                   else search (matcher r) s i)
      in case found of
           None \<Rightarrow> (None, if flagged then r\<lparr>lastIndex := 0\<rparr> else r)
         | Some (index, e) \<Rightarrow> (Some index, if flagged then r\<lparr>lastIndex := e\<rparr> else r))"

subsection \<open>The host: editor, input box and error messages\<close>

record editor =
  languageId :: string
  document :: "string list"
  selections :: "selection list"

text \<open>
  \<open>inputBox\<close> is what the prompt would return (\<open>None\<close> when the user cancels it),
  \<open>errorMessages\<close> the messages shown so far, oldest first.
\<close>

record host =
  activeTextEditor :: "editor option"
  inputBox :: "string option"
  errorMessages :: "message list"

definition showErrorMessage :: "message \<Rightarrow> host \<Rightarrow> host" where
  "showErrorMessage msg h = h\<lparr>errorMessages := errorMessages h @ [msg]\<rparr>"

text \<open>The argument of the command: a string, \<open>undefined\<close>, or another value (as its JSON text).\<close>

datatype json = Str string | Undefined | Other string

subsection \<open>The comment patterns\<close>

text \<open>The table of the source, in its order.\<close>

definition COMMENT_PATTERNS :: "(string \<times> string) list" where
  "COMMENT_PATTERNS =
    [(''coffeescript'', ''#''),
     (''dockercompose'', ''#''),
     (''dockerfile'', ''#''),
     (''elixir'', ''#''),
     (''gdscript'', ''#''),
     (''ignore'', ''#''),
     (''julia'', ''#''),
     (''makefile'', ''#''),
     (''perl'', ''#''),
     (''powershell'', ''#''),
     (''python'', ''#''),
     (''r'', ''#''),
     (''raku'', ''#''),
     (''ruby'', ''#''),
     (''shellscript'', ''#''),
     (''ssh_config'', ''#''),
     (''yaml'', ''#''),
     (''html'', ''<!--''),
     (''markdown'', ''<!--''),
     (''php'', ''<!--''),
     (''razor'', ''<!--''),
     (''xml'', ''<!--''),
     (''xsl'', ''<!--''),
     (''ada'', ''--|/'' @ backslash # ''*''),
     (''lua'', ''--|/'' @ backslash # ''*''),
     (''haskell'', ''--|/'' @ backslash # ''*''),
     (''sql'', ''--|/'' @ backslash # ''*''),
     (''sqlite'', ''--|/'' @ backslash # ''*''),
     (''bibtex'', ''%''),
     (''erlang'', ''%''),
     (''latex'', ''%''),
     (''matlab'', ''%''),
     (''tex'', ''%''),
     (''gdresource'', '';''),
     (''gdscene'', '';''),
     (''ini'', '';''),
     (''properties'', '';''),
     (''fsharp'', ''//''),
     (''shaderlab'', ''//''),
     (''bat'', ''@[rR][eE][mM]''),
     (''css'', ''/'' @ backslash # ''*''),
     (''clojure'', '';;''),
     (''handlebars'', ''{{!--''),
     (''jade'', ''//-''),
     (''ocaml'', backslash # ''('' @ backslash # ''*''),
     (''prolog'', ''%|/'' @ backslash # ''*''),
     (''restructuredtext'', ''..''),
     (''vb'', [CHR 0x27])]"

subsection \<open>Helpers: \<open>createRegExp\<close>\<close>

text \<open>
  The three branches of the source: a string is compiled; \<open>undefined\<close> opens the input
  box, and a cancelled box gives \<open>null\<close> with no message; any other value is reported.
  The result is the pattern (or \<open>null\<close>, here \<open>None\<close>) and the host with the messages
  shown.
\<close>

definition compile_or_report :: "compiler \<Rightarrow> string \<Rightarrow> host \<Rightarrow> regexp option \<times> host" where
  "compile_or_report compile src h =
     (case new_RegExp compile src of
        Inl msg \<Rightarrow> (None, showErrorMessage (InvalidPattern msg) h)
      | Inr r \<Rightarrow> (Some r, h))"

definition createRegExp :: "compiler \<Rightarrow> json \<Rightarrow> host \<Rightarrow> regexp option \<times> host" where
  "createRegExp compile arg h =
     (case arg of
        Str src \<Rightarrow> compile_or_report compile src h
      | Undefined \<Rightarrow>
          (case inputBox h of
             None \<Rightarrow> (None, h)
           | Some src \<Rightarrow> compile_or_report compile src h)
      | Other v \<Rightarrow> (None, showErrorMessage (InvalidArgument v) h))"

subsection \<open>The selected ranges\<close>

text \<open>
  A loop with an early exit: \<open>for_each f xs s\<close> runs \<open>f\<close> on each element, threading
  the state, and stops at the first failure.
\<close>

fun for_each :: "('a \<Rightarrow> 's \<Rightarrow> 'e + 's) \<Rightarrow> 'a list \<Rightarrow> 's \<Rightarrow> 'e + 's" where
  "for_each f [] s = Inr s"
| "for_each f (x # xs) s =
     (case f x s of
        Inl e \<Rightarrow> Inl e
      | Inr s' \<Rightarrow> for_each f xs s')"

text \<open>
  The set \<open>lines\<close> of the source is kept as the list of its elements in insertion
  order: \<open>has\<close> is membership, \<open>add\<close> appends an element that is not there yet, \<open>size\<close>
  is the length.
\<close>

definition has :: "nat list \<Rightarrow> nat \<Rightarrow> bool" where
  "has lines ln = (ln \<in> set lines)"

definition add :: "nat list \<Rightarrow> nat \<Rightarrow> nat list" where
  "add lines ln = (if ln \<in> set lines then lines else lines @ [ln])"

text \<open>The body of the inner loop over the lines of a non-empty selection.\<close>

definition claim_line :: "nat \<Rightarrow> nat list \<Rightarrow> failure + nat list" where
  "claim_line ln lines =
     (if has lines ln then Inl (Shown (DuplicateLineSelection (ln + 1)))
      else Inr (add lines ln))"

text \<open>
  The body of the loop over the selections; the state is the set \<open>lines\<close> and the list
  \<open>ranges\<close>. An empty selection reads the length of its line before it checks the set.
\<close>

definition each_selection ::
  "string list \<Rightarrow> selection \<Rightarrow> nat list \<times> text_range list \<Rightarrow> failure + nat list \<times> text_range list"
where
  "each_selection doc sel st =
     (case st of (lines, ranges) \<Rightarrow>
       (if isEmpty sel then
          (let ln = line (selection_start sel) in
           case lineAt doc ln of
             Inl e \<Rightarrow> Inl e
           | Inr text \<Rightarrow>
               (let lastChar = length text in
                if has lines ln then Inl (Shown (DuplicateLineSelection (ln + 1)))
                else Inr (add lines ln,
                          ranges @ [new_Range (Position ln 0) (Position ln lastChar)])))
        else
          (case for_each claim_line
                  [line (selection_start sel) ..< line (selection_end sel) + 1] lines of
             Inl e \<Rightarrow> Inl e
           | Inr lines' \<Rightarrow>
               Inr (lines', ranges @ [new_Range (selection_start sel) (selection_end sel)]))))"

text \<open>
  \<open>get_ranges\<close> is the part of \<open>alignCustomPattern\<close> that fills \<open>ranges\<close>: the whole
  document for a single empty selection, the selected ranges otherwise.
\<close>

definition whole_document :: "string list \<Rightarrow> failure + text_range list" where
  "whole_document doc =
     (if length doc < 2 then Inl (Shown InsufficientLines)
      else
        (let lastLine = length doc - 1 in
         case lineAt doc lastLine of
           Inl e \<Rightarrow> Inl e
         | Inr text \<Rightarrow>
             (let lastChar = length text in
              Inr [new_Range (Position 0 0) (Position lastLine lastChar)])))"

definition selected_ranges :: "string list \<Rightarrow> selection list \<Rightarrow> failure + text_range list" where
  "selected_ranges doc sels =
     (case for_each (each_selection doc) sels ([], []) of
        Inl e \<Rightarrow> Inl e
      | Inr (lines, ranges) \<Rightarrow>
          if length lines < 2 then Inl (Shown InsufficientSelection) else Inr ranges)"

definition get_ranges :: "string list \<Rightarrow> selection list \<Rightarrow> failure + text_range list" where
  "get_ranges doc sels =
     (if length sels = 1 \<and> isEmpty (sels ! 0) then whole_document doc
      else selected_ranges doc sels)"

subsection \<open>The positions of the matches\<close>

text \<open>
  The selected part of a line of a range and the column it starts at
  (\<open>selectedText\<close> and \<open>selectionStartChar\<close>), by the four branches of the source.
\<close>

definition selected_part :: "text_range \<Rightarrow> nat \<Rightarrow> string \<Rightarrow> string \<times> nat" where
  "selected_part r ln fullText =
     (if line (range_start r) = line (range_end r) then
        (substring fullText (character (range_start r)) (character (range_end r)),
         character (range_start r))
      else if ln = line (range_start r) then
        (substring_from fullText (character (range_start r)), character (range_start r))
      else if ln = line (range_end r) then
        (substring fullText 0 (character (range_end r)), 0)
      else (fullText, 0))"

text \<open>
  The state of the two nested loops: the pattern object (which \<open>exec\<close> may update),
  the list \<open>positions\<close> and \<open>rightmostChar\<close>.
\<close>

type_synonym scan_state = "regexp \<times> position list \<times> int"

definition scan_line :: "string list \<Rightarrow> text_range \<Rightarrow> nat \<Rightarrow> scan_state \<Rightarrow> failure + scan_state" where
  "scan_line doc r ln st =
     (case st of (pattern, positions, rightmostChar) \<Rightarrow>
        (case lineAt doc ln of
           Inl e \<Rightarrow> Inl e
         | Inr fullText \<Rightarrow>
             (case selected_part r ln fullText of (selectedText, selectionStartChar) \<Rightarrow>
                (case exec pattern selectedText of
                   (None, pattern') \<Rightarrow> Inr (pattern', positions, rightmostChar)
                 | (Some index, pattern') \<Rightarrow>
                     (let char = index + selectionStartChar in
                      Inr (pattern',
                           positions @ [Position ln char],
                           if rightmostChar < int char then int char else rightmostChar))))))"

definition scan_range :: "string list \<Rightarrow> text_range \<Rightarrow> scan_state \<Rightarrow> failure + scan_state" where
  "scan_range doc r st =
     for_each (scan_line doc r) [line (range_start r) ..< line (range_end r) + 1] st"

definition find_positions :: "regexp \<Rightarrow> string list \<Rightarrow> text_range list \<Rightarrow> failure + scan_state" where
  "find_positions pattern doc ranges = for_each (scan_range doc) ranges (pattern, [], - 1)"

subsection \<open>The edits\<close>

text \<open>
  \<open>textEditorEdit.insert(position, text)\<close> on the document: the text goes in front of
  the character at the position, on that line only.
\<close>

definition insert_text :: "position \<Rightarrow> string \<Rightarrow> string list \<Rightarrow> string list" where
  "insert_text p text doc =
     (if line p < length doc
      then doc[line p := take (character p) (doc ! line p) @ text @ drop (character p) (doc ! line p)]
      else doc)"

definition spaces :: "nat \<Rightarrow> string" where
  "spaces n = replicate n (CHR '' '')"

text \<open>The body of the last loop: skip a position at the rightmost column, pad the others.\<close>

definition edit_position :: "int \<Rightarrow> position \<Rightarrow> string list \<Rightarrow> string list" where
  "edit_position rightmostChar p doc =
     (let spaceCount = rightmostChar - int (character p) in
      if spaceCount < 1 then doc
      else insert_text p (spaces (nat spaceCount)) doc)"

definition make_edits :: "int \<Rightarrow> position list \<Rightarrow> string list \<Rightarrow> string list" where
  "make_edits rightmostChar positions doc = fold (edit_position rightmostChar) positions doc"

text \<open>
  The insertions the last loop issues, in its order: the position and the number of
  spaces of each call of \<open>insert\<close>.
\<close>

definition insertions :: "int \<Rightarrow> position list \<Rightarrow> (position \<times> nat) list" where
  "insertions rightmostChar positions =
     List.map_filter
       (\<lambda>p. let spaceCount = rightmostChar - int (character p) in
            if spaceCount < 1 then None else Some (p, nat spaceCount))
       positions"

definition apply_insertions :: "(position \<times> nat) list \<Rightarrow> string list \<Rightarrow> string list" where
  "apply_insertions ins doc = fold (\<lambda>(p, n). insert_text p (spaces n)) ins doc"

subsection \<open>Commands\<close>

text \<open>
  \<open>alignCustomPattern\<close>: the result is \<open>Inl\<close> for an exception that escapes the
  command, and otherwise the host after it: its messages and its document. What the host
  does to the selections when the spaces are inserted is not part of the extension; the
  selections of the result are those of the call.
\<close>

definition align_editor :: "regexp \<Rightarrow> editor \<Rightarrow> host \<Rightarrow> exn + host" where
  "align_editor pattern ed h =
     (case get_ranges (document ed) (selections ed) of
        Inl (Shown msg) \<Rightarrow> Inr (showErrorMessage msg h)
      | Inl (Thrown x) \<Rightarrow> Inl x
      | Inr ranges \<Rightarrow>
          (case find_positions pattern (document ed) ranges of
             Inl (Shown msg) \<Rightarrow> Inr (showErrorMessage msg h)
           | Inl (Thrown x) \<Rightarrow> Inl x
           | Inr (pattern', positions, rightmostChar) \<Rightarrow>
               if length positions = 0 then
                 Inr (showErrorMessage (NoMatchesFound (regexp_toString pattern')) h)
               else if length positions = 1 then
                 Inr (showErrorMessage (SingleMatchFound (regexp_toString pattern')) h)
               else
                 Inr (h\<lparr>activeTextEditor :=
                          Some (ed\<lparr>document := make_edits rightmostChar positions (document ed)\<rparr>)\<rparr>)))"

definition alignCustomPattern :: "compiler \<Rightarrow> json \<Rightarrow> host \<Rightarrow> exn + host" where
  "alignCustomPattern compile possiblePatternString h =
     (case createRegExp compile possiblePatternString h of
        (None, h') \<Rightarrow> Inr h'
      | (Some pattern, h') \<Rightarrow>
          (case activeTextEditor h' of
             None \<Rightarrow> Inr (showErrorMessage NoActiveDocument h')
           | Some ed \<Rightarrow> align_editor pattern ed h'))"

definition alignAssignmentOperators :: "compiler \<Rightarrow> host \<Rightarrow> exn + host" where
  "alignAssignmentOperators compile h = alignCustomPattern compile (Str '' = '') h"

text \<open>The pattern \<open>alignComments\<close> passes on for a language identifier.\<close>

definition comment_pattern :: "string \<Rightarrow> string" where
  "comment_pattern lang =
     (case map_of COMMENT_PATTERNS lang of
        None \<Rightarrow> ''/[/*]''
      | Some pattern \<Rightarrow> pattern)"

definition alignComments :: "compiler \<Rightarrow> host \<Rightarrow> exn + host" where
  "alignComments compile h =
     (case activeTextEditor h of
        None \<Rightarrow> Inr (showErrorMessage NoActiveDocument h)
      | Some ed \<Rightarrow> alignCustomPattern compile (Str (comment_pattern (languageId ed))) h)"

subsection \<open>A fragment of the pattern language\<close>

text \<open>
  The commands are proved for any pattern compiler. To run them on concrete patterns,
  this is the compiler of the language on a fragment of its patterns: alternatives
  (\<open>|\<close>) of sequences of literal characters, escaped syntax characters, the dot, and
  character classes that list their characters. Every pattern of the source's table but
  the one of \<open>handlebars\<close> is in the fragment, and so are the fallback of
  \<open>alignComments\<close> and the pattern of \<open>alignAssignmentOperators\<close>. A pattern outside
  the fragment (quantifiers, groups, anchors, ranges, negated classes, other escapes) is
  rejected by \<open>fragment_compile\<close>; no statement below runs it on one.
\<close>

datatype atom = Lit char | AnyChar | OneOf "char list"

definition syntax_characters :: "char list" where
  "syntax_characters = ''^$.*+?()[]{}|/'' @ [backslash]"

definition cons_atom :: "atom \<Rightarrow> atom list list option \<Rightarrow> atom list list option" where
  "cons_atom a rest =
     (case rest of
        Some (alt # alts) \<Rightarrow> Some ((a # alt) # alts)
      | _ \<Rightarrow> None)"

text \<open>
  The first argument is \<open>Some cs\<close> inside a character class, with the characters read
  so far in reverse.
\<close>

fun parse_pattern :: "char list option \<Rightarrow> string \<Rightarrow> atom list list option" where
  "parse_pattern None [] = Some [[]]"
| "parse_pattern (Some cls) [] = None"
| "parse_pattern (Some cls) (c # cs) =
     (if c = CHR '']'' then cons_atom (OneOf (rev cls)) (parse_pattern None cs)
      else if c = backslash \<or> c = CHR ''-'' \<or> c = CHR ''^'' then None
      else parse_pattern (Some (c # cls)) cs)"
| "parse_pattern None (c # cs) =
     (if c = CHR ''|'' then map_option (\<lambda>alts. [] # alts) (parse_pattern None cs)
      else if c = CHR ''.'' then cons_atom AnyChar (parse_pattern None cs)
      else if c = CHR ''['' then parse_pattern (Some []) cs
      else if c = backslash then
        (case cs of
           [] \<Rightarrow> None
         | d # ds \<Rightarrow>
             if d \<in> set syntax_characters then cons_atom (Lit d) (parse_pattern None ds)
             else None)
      else if c \<in> set ''^$*+?(){}]'' then None
      else cons_atom (Lit c) (parse_pattern None cs))"

definition atom_matches :: "atom \<Rightarrow> char \<Rightarrow> bool" where
  "atom_matches a x =
     (case a of
        Lit c \<Rightarrow> x = c
      | AnyChar \<Rightarrow> x \<noteq> CHR 0x0A \<and> x \<noteq> CHR 0x0D
      | OneOf cs \<Rightarrow> x \<in> set cs)"

fun match_atoms :: "atom list \<Rightarrow> matcher" where
  "match_atoms [] s i = Some i"
| "match_atoms (a # as) s i =
     (if i < length s \<and> atom_matches a (s ! i) then match_atoms as s (Suc i) else None)"

fun match_alternatives :: "atom list list \<Rightarrow> matcher" where
  "match_alternatives [] s i = None"
| "match_alternatives (alt # alts) s i =
     (case match_atoms alt s i of
        Some e \<Rightarrow> Some e
      | None \<Rightarrow> match_alternatives alts s i)"

definition fragment_compile :: compiler where
  "fragment_compile src =
     (case parse_pattern None src of
        None \<Rightarrow> Inl (''not in the fragment: '' @ src)
      | Some alts \<Rightarrow> Inr (match_alternatives alts))"

subsection \<open>Specification-side notions\<close>

text \<open>
  The leftmost match of a matcher in a text: the first index, from \<open>0\<close> up to the
  length of the text, at which the matcher succeeds.
\<close>

definition leftmost :: "matcher \<Rightarrow> string \<Rightarrow> nat option" where
  "leftmost m s = find (\<lambda>i. m s i \<noteq> None) [0 ..< length s + 1]"

text \<open>The line indices a range runs over, in the order of the loops of the source.\<close>

definition range_lines :: "text_range \<Rightarrow> nat list" where
  "range_lines r = [line (range_start r) ..< line (range_end r) + 1]"

text \<open>The line indices the two nested loops of the scan visit, in order.\<close>

definition scanned_lines :: "text_range list \<Rightarrow> nat list" where
  "scanned_lines ranges = concat (map range_lines ranges)"

text \<open>All lines of the ranges are lines of the document.\<close>

definition in_document :: "string list \<Rightarrow> text_range list \<Rightarrow> bool" where
  "in_document doc ranges = (\<forall>r\<in>set ranges. \<forall>ln\<in>set (range_lines r). ln < length doc)"

text \<open>
  What a line of a range contributes when the pattern keeps no state between lines: the
  position of the leftmost match in the selected part, moved by the column the part
  starts at. \<open>matches_of\<close> collects these over all lines of all ranges, and
  \<open>rightmost_of\<close> is the running maximum of the columns.
\<close>

definition line_match :: "matcher \<Rightarrow> string list \<Rightarrow> text_range \<Rightarrow> nat \<Rightarrow> position option" where
  "line_match m doc r ln =
     (case selected_part r ln (doc ! ln) of
        (selectedText, selectionStartChar) \<Rightarrow>
          map_option (\<lambda>index. Position ln (index + selectionStartChar)) (leftmost m selectedText))"

definition matches_of_range :: "matcher \<Rightarrow> string list \<Rightarrow> text_range \<Rightarrow> position list" where
  "matches_of_range m doc r = List.map_filter (line_match m doc r) (range_lines r)"

definition matches_of :: "matcher \<Rightarrow> string list \<Rightarrow> text_range list \<Rightarrow> position list" where
  "matches_of m doc ranges = concat (map (matches_of_range m doc) ranges)"

definition rightmost_of :: "int \<Rightarrow> position list \<Rightarrow> int" where
  "rightmost_of rm ps =
     fold (\<lambda>p rm. if rm < int (character p) then int (character p) else rm) ps rm"

text \<open>
  The part of a line a range permits, in the words of the specification: the exact
  slice when the range starts and ends on one line, the suffix from the start column on
  its first line, the prefix up to the end column on its last line, the full line
  otherwise; with it, the column the part starts at.
\<close>

definition permitted_part :: "text_range \<Rightarrow> nat \<Rightarrow> string \<Rightarrow> string \<times> nat" where
  "permitted_part r ln text =
     (let startColumn = character (range_start r);
          endColumn = character (range_end r)
      in if line (range_start r) = line (range_end r)
           then (take (endColumn - startColumn) (drop startColumn text), startColumn)
         else if ln = line (range_start r) then (drop startColumn text, startColumn)
         else if ln = line (range_end r) then (take endColumn text, 0)
         else (text, 0))"

text \<open>
  The line indices a selection claims, in the order the source adds them to \<open>lines\<close>:
  from its start line to its end line (for an empty selection, its one line).
\<close>

definition claimed_lines :: "selection \<Rightarrow> nat list" where
  "claimed_lines sel = [line (selection_start sel) ..< line (selection_end sel) + 1]"

text \<open>
  The first duplicate of a sequence of claims: the first element that is already among
  the lines \<open>seen\<close> or among the elements before it.
\<close>

fun first_duplicate :: "nat list \<Rightarrow> nat list \<Rightarrow> nat option" where
  "first_duplicate seen [] = None"
| "first_duplicate seen (x # xs) =
     (if x \<in> set seen then Some x else first_duplicate (seen @ [x]) xs)"

text \<open>The range a selection stands for: its whole line when it is empty, itself otherwise.\<close>

definition range_of_selection :: "string list \<Rightarrow> selection \<Rightarrow> text_range" where
  "range_of_selection doc sel =
     (if isEmpty sel
      then Range (Position (line (selection_start sel)) 0)
             (Position (line (selection_start sel)) (length (doc ! line (selection_start sel))))
      else Range (selection_start sel) (selection_end sel))"

text \<open>The selections lie inside the document, as the host guarantees.\<close>

definition selections_in_document :: "string list \<Rightarrow> selection list \<Rightarrow> bool" where
  "selections_in_document doc sels = (\<forall>sel\<in>set sels. line (selection_end sel) < length doc)"

text \<open>A line with \<open>n\<close> spaces put in before column \<open>c\<close>.\<close>

definition pad :: "nat \<Rightarrow> nat \<Rightarrow> string \<Rightarrow> string" where
  "pad c n s = take c s @ spaces n @ drop c s"



text \<open>
  Two readings of the fallback. \<open>first_slash_or_star\<close> is the index of the first
  character of the text that is a slash or a star. \<open>first_comment_start\<close> is the first
  index at which a slash stands that is immediately followed by a slash or a star.
\<close>

definition first_slash_or_star :: "string \<Rightarrow> nat option" where
  "first_slash_or_star s =
     find (\<lambda>i. s ! i = CHR ''/'' \<or> s ! i = CHR ''*'') [0 ..< length s]"

definition comment_start_at :: "string \<Rightarrow> nat \<Rightarrow> bool" where
  "comment_start_at s i =
     (i + 1 < length s \<and> s ! i = CHR ''/'' \<and> (s ! (i + 1) = CHR ''/'' \<or> s ! (i + 1) = CHR ''*''))"

definition first_comment_start :: "string \<Rightarrow> nat option" where
  "first_comment_start s = find (comment_start_at s) [0 ..< length s]"

subsection \<open>A small document to run the commands on\<close>

text \<open>
  Two assignments in an editor with a bare cursor on the first line, and the pattern
  object that \<open>new RegExp(' = ')\<close> creates with the compiler of the fragment.
\<close>

definition demo_document :: "string list" where
  "demo_document = [''x = 1'', ''yy = 2'']"

definition demo_editor :: editor where
  "demo_editor =
     \<lparr>languageId = ''javascript'',
      document = demo_document,
      selections = [Selection (Position 0 0) (Position 0 0)]\<rparr>"

definition demo_host :: host where
  "demo_host = \<lparr>activeTextEditor = Some demo_editor, inputBox = None, errorMessages = []\<rparr>"

text \<open>The same host with another document in its editor.\<close>

definition demo_host_with :: "string list \<Rightarrow> host" where
  "demo_host_with doc =
     \<lparr>activeTextEditor = Some (demo_editor\<lparr>document := doc\<rparr>), inputBox = None,
      errorMessages = []\<rparr>"

definition assignment_matcher :: matcher where
  "assignment_matcher = match_alternatives [[Lit (CHR '' ''), Lit (CHR ''=''), Lit (CHR '' '')]]"

definition assignment_pattern :: regexp where
  "assignment_pattern =
     \<lparr>source = '' = '', global = False, sticky = False, lastIndex = 0,
      matcher = assignment_matcher\<rparr>"



subsection \<open>More documents to run the commands on\<close>

definition six_lines :: "string list" where
  "six_lines = [''a = 1'', ''bb = 2'', ''ccc = 3'', ''d = 4'', ''ee = 5'', ''f = 6'']"

text \<open>
  With a bare cursor in the six lines: the range of the whole document, the positions
  the assignment pattern is found at, the insertions, and the lines after them.
\<close>

definition six_lines_range :: text_range where
  "six_lines_range = Range (Position 0 0) (Position 5 5)"

definition six_lines_positions :: "position list" where
  "six_lines_positions =
     [Position 0 1, Position 1 2, Position 2 3, Position 3 1, Position 4 2, Position 5 1]"

definition six_lines_insertions :: "(position \<times> nat) list" where
  "six_lines_insertions =
     [(Position 0 1, 2), (Position 1 2, 1), (Position 3 1, 2), (Position 4 2, 1), (Position 5 1, 2)]"

definition six_lines_aligned :: "string list" where
  "six_lines_aligned =
     [''a   = 1'', ''bb  = 2'', ''ccc = 3'', ''d   = 4'', ''ee  = 5'', ''f   = 6'']"

text \<open>Two cursors on the line with index 5.\<close>

definition two_cursors_editor :: editor where
  "two_cursors_editor =
     \<lparr>languageId = ''javascript'',
      document = six_lines,
      selections = [Selection (Position 5 0) (Position 5 0), Selection (Position 5 3) (Position 5 3)]\<rparr>"

definition two_cursors_host :: host where
  "two_cursors_host =
     \<lparr>activeTextEditor = Some two_cursors_editor, inputBox = None, errorMessages = []\<rparr>"

text \<open>Documents with no match and with one match of the assignment pattern, and one of one line.\<close>

definition no_match_host :: host where
  "no_match_host =
     \<lparr>activeTextEditor =
        Some \<lparr>languageId = ''plaintext'', document = [''a'', ''b'', ''c''],
              selections = [Selection (Position 0 0) (Position 0 0)]\<rparr>,
      inputBox = None, errorMessages = []\<rparr>"

definition one_match_host :: host where
  "one_match_host =
     \<lparr>activeTextEditor =
        Some \<lparr>languageId = ''plaintext'', document = [''x = 1'', ''b''],
              selections = [Selection (Position 0 0) (Position 0 0)]\<rparr>,
      inputBox = None, errorMessages = []\<rparr>"

definition one_line_host :: host where
  "one_line_host =
     \<lparr>activeTextEditor =
        Some \<lparr>languageId = ''plaintext'', document = [''x = 1''],
              selections = [Selection (Position 0 2) (Position 0 2)]\<rparr>,
      inputBox = None, errorMessages = []\<rparr>"

text \<open>
  A selection that starts inside the first line and ends inside the third, made from
  its end to its start.
\<close>

definition span_document :: "string list" where
  "span_document = [''ab = 1 = 2'', ''c = 3'', ''dd = 4 = 5'']"

definition span_selection :: selection where
  "span_selection = Selection (Position 2 4) (Position 0 5)"

definition span_range :: text_range where
  "span_range = Range (Position 0 5) (Position 2 4)"

subsection \<open>A document for the comment command\<close>

text \<open>The matcher of the fallback pattern \<open>/[/*]\<close>: a slash, then a slash or a star.\<close>

definition fallback_matcher :: matcher where
  "fallback_matcher = match_alternatives [[Lit (CHR ''/''), OneOf ''/*'']]"

text \<open>A document in a language that the table does not list.\<close>

definition comment_host :: host where
  "comment_host =
     \<lparr>activeTextEditor =
        Some \<lparr>languageId = ''javascript'', document = [''x * 2 // c'', ''yy // d''],
              selections = [Selection (Position 0 0) (Position 0 0)]\<rparr>,
      inputBox = None, errorMessages = []\<rparr>"

definition comment_host_aligned :: host where
  "comment_host_aligned =
     \<lparr>activeTextEditor =
        Some \<lparr>languageId = ''javascript'', document = [''x * 2 // c'', ''yy    // d''],
              selections = [Selection (Position 0 0) (Position 0 0)]\<rparr>,
      inputBox = None, errorMessages = []\<rparr>"

text \<open>
  The pattern object of the fallback, and a document of an unlisted language with a bare
  slash and a bare star but no comment.
\<close>

definition fallback_pattern :: regexp where
  "fallback_pattern =
     \<lparr>source = backslash # ''/[/*]'', global = False, sticky = False, lastIndex = 0,
      matcher = fallback_matcher\<rparr>"

definition slashes_host :: host where
  "slashes_host =
     \<lparr>activeTextEditor =
        Some \<lparr>languageId = ''javascript'', document = [''a / b'', ''c * d''],
              selections = [Selection (Position 0 0) (Position 0 0)]\<rparr>,
      inputBox = None, errorMessages = []\<rparr>"



text \<open>The insertion on a line, if there is one.\<close>

definition insertion_on :: "(position \<times> nat) list \<Rightarrow> nat \<Rightarrow> (position \<times> nat) option" where
  "insertion_on ins ln = find (\<lambda>(at, n). line at = ln) ins"










section \<open>Properties of the model\<close>

subsection \<open>The search loop and stateless patterns\<close>

lemma search_find:
  "map_option fst (search m s i) = find (\<lambda>j. m s j \<noteq> None) [i ..< length s + 1]"
proof (induction m s i rule: search.induct)
  case (1 m s i)
  show ?case
  proof (cases "length s < i")
    case True
    then show ?thesis by (simp add: search.simps [of m s i])
  next
    case False
    then have up: "[i ..< length s + 1] = i # [Suc i ..< length s + 1]"
      by (simp add: upt_conv_Cons)
    show ?thesis
    proof (cases "m s i")
      case None
      with False "1.IH" up show ?thesis
        by (simp add: search.simps [of m s i])
    next
      case (Some e)
      with False up show ?thesis
        by (simp add: search.simps [of m s i])
    qed
  qed
qed

lemma search_leftmost: "map_option fst (search m s 0) = leftmost m s"
  by (simp add: search_find leftmost_def)

lemma exec_flagless:
  assumes "\<not> global r" and "\<not> sticky r"
  shows "exec r s = (leftmost (matcher r) s, r)"
proof (cases "search (matcher r) s 0")
  case None
  with assms search_leftmost [of "matcher r" s] show ?thesis
    by (simp add: exec_def)
next
  case (Some a)
  with assms search_leftmost [of "matcher r" s] show ?thesis
    by (cases a) (simp add: exec_def)
qed

lemma for_each_append:
  "for_each f (xs @ ys) s = (case for_each f xs s of Inl e \<Rightarrow> Inl e | Inr s' \<Rightarrow> for_each f ys s')"
  by (induction xs arbitrary: s) (auto split: sum.splits)

lemma rightmost_of_Nil [simp]: "rightmost_of rm [] = rm"
  by (simp add: rightmost_of_def)

lemma rightmost_of_append: "rightmost_of rm (xs @ ys) = rightmost_of (rightmost_of rm xs) ys"
  by (simp add: rightmost_of_def)

lemma rightmost_of_single:
  "rightmost_of rm [p] = (if rm < int (character p) then int (character p) else rm)"
  by (simp add: rightmost_of_def)

lemma map_filter_single:
  "List.map_filter f [x] = (case f x of None \<Rightarrow> [] | Some y \<Rightarrow> [y])"
  by (simp add: List.map_filter_def split: option.splits)

lemma map_filter_Cons:
  "List.map_filter f (x # xs) = List.map_filter f [x] @ List.map_filter f xs"
  by (simp add: List.map_filter_def)

lemma scan_line_flagless:
  assumes "\<not> global p" and "\<not> sticky p" and "ln < length doc"
  shows "scan_line doc r ln (p, ps, rm) =
           Inr (p, ps @ List.map_filter (line_match (matcher p) doc r) [ln],
                rightmost_of rm (List.map_filter (line_match (matcher p) doc r) [ln]))"
  using assms
  by (auto simp: scan_line_def lineAt_def exec_flagless line_match_def map_filter_single
        rightmost_of_single Let_def split: prod.splits option.splits)

lemma scan_line_outside:
  "\<not> ln < length doc \<Longrightarrow> scan_line doc r ln st = Inl (Thrown (IllegalLine ln))"
  by (auto simp: scan_line_def lineAt_def split: prod.splits)

lemma scan_lines_flagless:
  assumes "\<not> global p" and "\<not> sticky p" and "\<forall>ln\<in>set lns. ln < length doc"
  shows "for_each (scan_line doc r) lns (p, ps, rm) =
           Inr (p, ps @ List.map_filter (line_match (matcher p) doc r) lns,
                rightmost_of rm (List.map_filter (line_match (matcher p) doc r) lns))"
  using assms(3)
proof (induction lns arbitrary: ps rm)
  case Nil
  then show ?case by (simp add: List.map_filter_def)
next
  case (Cons ln lns)
  then show ?case
    using assms(1,2)
    by (simp add: scan_line_flagless map_filter_Cons [of _ ln lns] rightmost_of_append
          del: map_filter_simps)
qed

lemma scan_lines_Inr:
  "for_each (scan_line doc r) lns st = Inr st' \<Longrightarrow> \<forall>ln\<in>set lns. ln < length doc"
proof (induction lns arbitrary: st)
  case Nil
  then show ?case by simp
next
  case (Cons ln lns)
  then show ?case
    by (cases "ln < length doc") (auto simp: scan_line_outside split: sum.splits)
qed

lemma scan_range_flagless:
  assumes "\<not> global p" and "\<not> sticky p" and "\<forall>ln\<in>set (range_lines r). ln < length doc"
  shows "scan_range doc r (p, ps, rm) =
           Inr (p, ps @ matches_of_range (matcher p) doc r,
                rightmost_of rm (matches_of_range (matcher p) doc r))"
  using assms scan_lines_flagless [of p "range_lines r" doc r ps rm]
  by (simp add: scan_range_def matches_of_range_def range_lines_def)

lemma scan_ranges_flagless:
  assumes "\<not> global p" and "\<not> sticky p" and "in_document doc ranges"
  shows "for_each (scan_range doc) ranges (p, ps, rm) =
           Inr (p, ps @ matches_of (matcher p) doc ranges,
                rightmost_of rm (matches_of (matcher p) doc ranges))"
  using assms(3)
proof (induction ranges arbitrary: ps rm)
  case Nil
  then show ?case by (simp add: matches_of_def)
next
  case (Cons r ranges)
  then show ?case
    using assms(1,2)
    by (simp add: scan_range_flagless matches_of_def in_document_def rightmost_of_append)
qed

lemma scan_ranges_Inr:
  "for_each (scan_range doc) ranges st = Inr st' \<Longrightarrow> in_document doc ranges"
proof (induction ranges arbitrary: st)
  case Nil
  then show ?case by (simp add: in_document_def)
next
  case (Cons r ranges)
  then show ?case
    by (auto simp: in_document_def scan_range_def range_lines_def split: sum.splits
          dest: scan_lines_Inr)
qed

lemma find_positions_flagless:
  assumes "\<not> global p" and "\<not> sticky p" and "in_document doc ranges"
  shows "find_positions p doc ranges =
           Inr (p, matches_of (matcher p) doc ranges,
                rightmost_of (- 1) (matches_of (matcher p) doc ranges))"
  using scan_ranges_flagless [OF assms, of "[]" "- 1"] by (simp add: find_positions_def)

lemma find_positions_Inr:
  "find_positions p doc ranges = Inr st' \<Longrightarrow> in_document doc ranges"
  unfolding find_positions_def by (rule scan_ranges_Inr)

lemma new_RegExp_flagless:
  "new_RegExp compile src = Inr p \<Longrightarrow>
     \<not> global p \<and> \<not> sticky p \<and> lastIndex p = 0 \<and> source p = EscapeRegExpPattern src
     \<and> compile src = Inr (matcher p)"
  by (auto simp: new_RegExp_def split: sum.splits)

subsection \<open>The pattern of the assignment command on the small document\<close>

lemma fragment_assignment: "fragment_compile '' = '' = Inr assignment_matcher"
  by (simp add: fragment_compile_def assignment_matcher_def cons_atom_def)

lemma new_RegExp_assignment: "new_RegExp fragment_compile '' = '' = Inr assignment_pattern"
  by (simp add: new_RegExp_def fragment_assignment assignment_pattern_def EscapeRegExpPattern_def)

lemma matcher_assignment_pattern: "matcher assignment_pattern = assignment_matcher"
  by (simp add: assignment_pattern_def)

lemma leftmost_assignment_demo:
  "leftmost assignment_matcher ''x = 1'' = Some 1"
  "leftmost assignment_matcher ''yy = 2'' = Some 2"
  by (simp_all add: leftmost_def assignment_matcher_def atom_matches_def
        upt_rec [of 0] upt_rec [of 1])

lemma line_match_assignment_demo:
  "line_match assignment_matcher demo_document (Range (Position 0 0) (Position 1 6)) 0
     = Some (Position 0 1)"
  "line_match assignment_matcher demo_document (Range (Position 0 0) (Position 1 6)) 1
     = Some (Position 1 2)"
  by (simp_all add: line_match_def selected_part_def demo_document_def substring_def
        substring_from_def leftmost_assignment_demo)

lemma matches_of_assignment_demo:
  "matches_of assignment_matcher demo_document [Range (Position 0 0) (Position 1 6)]
     = [Position 0 1, Position 1 2]"
  by (simp add: matches_of_def matches_of_range_def range_lines_def upt_rec [of 0]
        upt_rec [of 1] line_match_assignment_demo [simplified])

lemma in_document_demo:
  "in_document demo_document [Range (Position 0 0) (Position 1 6)]"
  by (simp add: demo_document_def in_document_def range_lines_def)

subsection \<open>The selected ranges\<close>

lemma isBefore_asym: "isBefore a b \<Longrightarrow> \<not> isBefore b a"
  by (auto simp: isBefore_def split: if_splits)

lemma new_Range_ordered: "\<not> isBefore (range_end (new_Range a b)) (range_start (new_Range a b))"
  by (auto simp: new_Range_def dest: isBefore_asym)

lemma new_Range_id: "\<not> isBefore b a \<Longrightarrow> new_Range a b = Range a b"
  by (simp add: new_Range_def)

lemma new_Range_selection:
  "new_Range (selection_start sel) (selection_end sel) = Range (selection_start sel) (selection_end sel)"
  by (simp add: new_Range_id selection_start_def selection_end_def new_Range_ordered)

lemma selection_ordered: "\<not> isBefore (selection_end sel) (selection_start sel)"
  by (simp add: selection_start_def selection_end_def new_Range_ordered)

lemma selection_lines_ordered: "line (selection_start sel) \<le> line (selection_end sel)"
  using selection_ordered [of sel] by (auto simp: isBefore_def split: if_splits)

lemma new_Range_line: "new_Range (Position ln 0) (Position ln n) = Range (Position ln 0) (Position ln n)"
  by (simp add: new_Range_def isBefore_def)

lemma claimed_lines_empty: "isEmpty sel \<Longrightarrow> claimed_lines sel = [line (selection_start sel)]"
  by (simp add: claimed_lines_def isEmpty_def)

lemma first_duplicate_append:
  "first_duplicate seen (xs @ ys) =
     (case first_duplicate seen xs of Some ln \<Rightarrow> Some ln | None \<Rightarrow> first_duplicate (seen @ xs) ys)"
  by (induction xs arbitrary: seen) (auto split: option.splits)

lemma first_duplicate_None_iff:
  "first_duplicate seen xs = None \<longleftrightarrow> distinct xs \<and> set xs \<inter> set seen = {}"
  by (induction xs arbitrary: seen) auto

lemma first_duplicate_Some:
  "first_duplicate seen xs = Some ln \<Longrightarrow>
     \<exists>j<length xs. xs ! j = ln \<and> ln \<in> set seen \<union> set (take j xs)
        \<and> distinct (take j xs) \<and> set (take j xs) \<inter> set seen = {}"
proof (induction xs arbitrary: seen)
  case Nil
  then show ?case by simp
next
  case (Cons x xs)
  show ?case
  proof (cases "x \<in> set seen")
    case True
    with Cons.prems have "ln = x" by simp
    then show ?thesis using True by (intro exI [of _ 0]) simp
  next
    case False
    with Cons.prems have "first_duplicate (seen @ [x]) xs = Some ln" by simp
    from Cons.IH [OF this] obtain j where j: "j < length xs" "xs ! j = ln"
      "ln \<in> set (seen @ [x]) \<union> set (take j xs)" "distinct (take j xs)"
      "set (take j xs) \<inter> set (seen @ [x]) = {}" by blast
    then show ?thesis using False by (intro exI [of _ "Suc j"]) auto
  qed
qed

lemma claim_lines:
  "for_each claim_line lns lines =
     (case first_duplicate lines lns of
        Some ln \<Rightarrow> Inl (Shown (DuplicateLineSelection (ln + 1)))
      | None \<Rightarrow> Inr (lines @ lns))"
  by (induction lns arbitrary: lines)
    (auto simp: claim_line_def has_def add_def split: option.splits)

lemma each_selection_eq:
  assumes "line (selection_end sel) < length doc"
  shows "each_selection doc sel (lines, ranges) =
     (case first_duplicate lines (claimed_lines sel) of
        Some ln \<Rightarrow> Inl (Shown (DuplicateLineSelection (ln + 1)))
      | None \<Rightarrow> Inr (lines @ claimed_lines sel, ranges @ [range_of_selection doc sel]))"
proof (cases "isEmpty sel")
  case True
  then have "line (selection_start sel) < length doc"
    using assms by (simp add: isEmpty_def)
  with True show ?thesis
    by (simp add: each_selection_def claimed_lines_empty lineAt_def has_def add_def
          range_of_selection_def new_Range_line Let_def)
next
  case False
  then show ?thesis
    by (simp add: each_selection_def claim_lines range_of_selection_def new_Range_selection
          claimed_lines_def split: option.splits)
qed

lemma each_selections_eq:
  assumes "selections_in_document doc sels"
  shows "for_each (each_selection doc) sels (lines, ranges) =
     (case first_duplicate lines (concat (map claimed_lines sels)) of
        Some ln \<Rightarrow> Inl (Shown (DuplicateLineSelection (ln + 1)))
      | None \<Rightarrow> Inr (lines @ concat (map claimed_lines sels),
                     ranges @ map (range_of_selection doc) sels))"
  using assms
proof (induction sels arbitrary: lines ranges)
  case Nil
  then show ?case by simp
next
  case (Cons sel sels)
  then have a: "line (selection_end sel) < length doc" and b: "selections_in_document doc sels"
    by (simp_all add: selections_in_document_def)
  show ?case
    by (simp add: each_selection_eq [OF a] Cons.IH [OF b] first_duplicate_append
          split: option.splits)
qed

lemma range_lines_of_selection: "range_lines (range_of_selection doc sel) = claimed_lines sel"
  by (auto simp: range_lines_def range_of_selection_def claimed_lines_def isEmpty_def)

lemma scanned_lines_of_selections:
  "scanned_lines (map (range_of_selection doc) sels) = concat (map claimed_lines sels)"
  by (simp add: scanned_lines_def comp_def range_lines_of_selection)

lemma selected_ranges_eq:
  assumes "selections_in_document doc sels"
  shows "selected_ranges doc sels =
     (case first_duplicate [] (concat (map claimed_lines sels)) of
        Some ln \<Rightarrow> Inl (Shown (DuplicateLineSelection (ln + 1)))
      | None \<Rightarrow>
          if length (concat (map claimed_lines sels)) < 2 then Inl (Shown InsufficientSelection)
          else Inr (map (range_of_selection doc) sels))"
  by (simp add: selected_ranges_def each_selections_eq [OF assms] split: option.splits)

lemma whole_document_eq:
  "whole_document doc =
     (if length doc < 2 then Inl (Shown InsufficientLines)
      else Inr [Range (Position 0 0) (Position (length doc - 1) (length (doc ! (length doc - 1))))])"
  by (auto simp: whole_document_def lineAt_def Let_def new_Range_def isBefore_def)

subsection \<open>The command from the pattern to the edits\<close>

lemma createRegExp_Some:
  "createRegExp compile arg h = (Some p, h') \<Longrightarrow> h' = h \<and> \<not> global p \<and> \<not> sticky p"
  by (auto simp: createRegExp_def compile_or_report_def split: json.splits sum.splits option.splits
        dest: new_RegExp_flagless)

lemma createRegExp_toString:
  "createRegExp compile (Str src) h = (Some p, h') \<Longrightarrow>
     regexp_toString p = ''/'' @ EscapeRegExpPattern src @ ''/''"
  "createRegExp compile Undefined h = (Some p, h') \<Longrightarrow> inputBox h = Some src \<Longrightarrow>
     regexp_toString p = ''/'' @ EscapeRegExpPattern src @ ''/''"
  by (auto simp: createRegExp_def compile_or_report_def regexp_toString_def split: sum.splits
        dest: new_RegExp_flagless)

lemma createRegExp_assignment:
  "createRegExp fragment_compile (Str '' = '') h = (Some assignment_pattern, h)"
  by (simp add: createRegExp_def compile_or_report_def new_RegExp_assignment)

lemma alignCustomPattern_editor:
  "createRegExp compile arg h = (Some p, h') \<Longrightarrow> activeTextEditor h = Some ed \<Longrightarrow>
     alignCustomPattern compile arg h = align_editor p ed h"
  using createRegExp_Some [of compile arg h p h']
  by (simp add: alignCustomPattern_def)

lemma align_editor_no_ranges:
  "get_ranges (document ed) (selections ed) = Inl (Shown msg) \<Longrightarrow>
     align_editor p ed h = Inr (h\<lparr>errorMessages := errorMessages h @ [msg]\<rparr>)"
  by (simp add: align_editor_def showErrorMessage_def)

lemma align_editor_flagless:
  assumes "\<not> global p" and "\<not> sticky p"
    and "get_ranges (document ed) (selections ed) = Inr ranges"
    and "in_document (document ed) ranges"
  shows "align_editor p ed h =
     (let positions = matches_of (matcher p) (document ed) ranges;
          rightmostChar = rightmost_of (- 1) positions
      in if length positions = 0 then
           Inr (h\<lparr>errorMessages := errorMessages h @ [NoMatchesFound (regexp_toString p)]\<rparr>)
         else if length positions = 1 then
           Inr (h\<lparr>errorMessages := errorMessages h @ [SingleMatchFound (regexp_toString p)]\<rparr>)
         else
           Inr (h\<lparr>activeTextEditor :=
                    Some (ed\<lparr>document := make_edits rightmostChar positions (document ed)\<rparr>)\<rparr>))"
  using assms
  by (simp add: align_editor_def find_positions_flagless showErrorMessage_def Let_def)

lemma map_filter_eq:
  "\<forall>x\<in>set xs. f x = g x \<Longrightarrow> List.map_filter f xs = List.map_filter g xs"
  by (induction xs) (simp_all add: map_filter_simps split: option.splits)

lemma whole_document_full_line:
  assumes "2 \<le> length doc" and "ln < length doc"
  shows "selected_part (Range (Position 0 0) (Position (length doc - 1) (length (doc ! (length doc - 1)))))
           ln (doc ! ln) = (doc ! ln, 0)"
  using assms
  by (auto simp: selected_part_def substring_def substring_from_def)

subsection \<open>Evaluating the small documents\<close>

lemmas selection_eval =
  isEmpty_def selection_start_def selection_end_def new_Range_def isBefore_def

lemma leftmost_assignment_none:
  "leftmost assignment_matcher ''a'' = None"
  "leftmost assignment_matcher ''b'' = None"
  "leftmost assignment_matcher ''c'' = None"
  by (simp_all add: leftmost_def assignment_matcher_def atom_matches_def
        upt_rec [of 0] upt_rec [of 1])

subsection \<open>Ranges that the command builds\<close>

lemma each_selection_Inr:
  assumes "each_selection doc sel (lines, ranges) = Inr (lines', ranges')"
  shows "lines' = lines @ claimed_lines sel \<and> ranges' = ranges @ [range_of_selection doc sel]
       \<and> first_duplicate lines (claimed_lines sel) = None"
proof (cases "isEmpty sel")
  case True
  with assms show ?thesis
    by (auto simp: each_selection_def claimed_lines_empty lineAt_def has_def add_def
          range_of_selection_def new_Range_line Let_def split: if_splits)
next
  case False
  with assms show ?thesis
    by (auto simp: each_selection_def claim_lines range_of_selection_def new_Range_selection
          claimed_lines_def split: option.splits sum.splits)
qed

lemma each_selections_Inr:
  "for_each (each_selection doc) sels (lines, ranges) = Inr (lines', ranges') \<Longrightarrow>
     lines' = lines @ concat (map claimed_lines sels)
   \<and> ranges' = ranges @ map (range_of_selection doc) sels
   \<and> first_duplicate lines (concat (map claimed_lines sels)) = None"
proof (induction sels arbitrary: lines ranges)
  case Nil
  then show ?case by simp
next
  case (Cons sel sels)
  from Cons.prems obtain l1 r1 where
    step: "each_selection doc sel (lines, ranges) = Inr (l1, r1)"
    and rest: "for_each (each_selection doc) sels (l1, r1) = Inr (lines', ranges')"
    by (auto split: sum.splits)
  from each_selection_Inr [OF step] Cons.IH [OF rest] show ?case
    by (simp add: first_duplicate_append)
qed

lemma range_of_selection_ordered:
  "\<not> isBefore (range_end (range_of_selection doc sel)) (range_start (range_of_selection doc sel))"
  using selection_ordered [of sel]
  by (auto simp: range_of_selection_def isBefore_def split: if_splits)

lemma get_ranges_Inr:
  assumes "get_ranges doc sels = Inr ranges"
  shows "(\<forall>r\<in>set ranges. \<not> isBefore (range_end r) (range_start r))
       \<and> distinct (scanned_lines ranges)"
proof (cases "length sels = 1 \<and> isEmpty (sels ! 0)")
  case True
  with assms have w: "whole_document doc = Inr ranges"
    by (simp add: get_ranges_def)
  then have long: "2 \<le> length doc"
    and r: "ranges = [Range (Position 0 0) (Position (length doc - 1) (length (doc ! (length doc - 1))))]"
    by (auto simp: whole_document_eq split: if_splits)
  from long have "length doc - 1 + 1 = length doc" by simp
  then have "scanned_lines ranges = [0 ..< length doc]"
    unfolding r scanned_lines_def range_lines_def by (simp del: One_nat_def)
  then show ?thesis
    by (simp add: r isBefore_def)
next
  case False
  with assms have s: "selected_ranges doc sels = Inr ranges"
    by (auto simp: get_ranges_def)
  then obtain lines where
    l: "for_each (each_selection doc) sels ([], []) = Inr (lines, ranges)"
    by (auto simp: selected_ranges_def split: sum.splits prod.splits if_splits)
  from each_selections_Inr [OF l]
  have r: "ranges = map (range_of_selection doc) sels"
    and d: "first_duplicate [] (concat (map claimed_lines sels)) = None"
    by simp_all
  from d have "distinct (concat (map claimed_lines sels))"
    by (simp add: first_duplicate_None_iff)
  then show ?thesis
    by (simp add: r scanned_lines_of_selections range_of_selection_ordered)
qed

lemma substring_take_drop: "a \<le> b \<Longrightarrow> substring s a b = take (b - a) (drop a s)"
  by (auto simp: substring_def Let_def min_def max_def)

lemma substring_from_drop: "substring_from s a = drop a s"
  by (auto simp: substring_from_def substring_def Let_def min_def max_def)

lemma substring_prefix: "substring s 0 b = take b s"
  by (simp add: substring_take_drop)

lemma selected_part_permitted:
  assumes "\<not> isBefore (range_end r) (range_start r)"
  shows "selected_part r ln text = permitted_part r ln text"
proof -
  from assms have "line (range_start r) = line (range_end r) \<Longrightarrow>
      character (range_start r) \<le> character (range_end r)"
    by (auto simp: isBefore_def split: if_splits)
  then show ?thesis
    by (simp add: selected_part_def permitted_part_def substring_take_drop substring_from_drop
          substring_prefix Let_def)
qed

subsection \<open>Insertions\<close>

lemma length_insert_text [simp]: "length (insert_text p t doc) = length doc"
  by (simp add: insert_text_def)

lemma nth_insert_text:
  "ln < length doc \<Longrightarrow>
     insert_text p t doc ! ln =
       (if ln = line p then take (character p) (doc ! ln) @ t @ drop (character p) (doc ! ln)
        else doc ! ln)"
  by (simp add: insert_text_def)

lemma insert_text_commute:
  assumes "line p \<noteq> line q"
  shows "insert_text p s (insert_text q t doc) = insert_text q t (insert_text p s doc)"
  using assms by (intro nth_equalityI) (simp_all add: nth_insert_text)

lemma length_edit_position [simp]: "length (edit_position rm p doc) = length doc"
  by (simp add: edit_position_def Let_def)

lemma length_make_edits [simp]: "length (make_edits rm ps doc) = length doc"
  unfolding make_edits_def by (induction ps arbitrary: doc) simp_all

lemma nth_edit_position:
  "ln < length doc \<Longrightarrow>
     edit_position rm p doc ! ln =
       (if ln = line p then pad (character p) (nat (rm - int (character p))) (doc ! ln)
        else doc ! ln)"
  by (simp add: edit_position_def Let_def nth_insert_text pad_def spaces_def)

lemma nth_make_edits:
  assumes "distinct (map line ps)" and "ln < length doc"
  shows "make_edits rm ps doc ! ln =
           (case find (\<lambda>p. line p = ln) ps of
              None \<Rightarrow> doc ! ln
            | Some p \<Rightarrow> pad (character p) (nat (rm - int (character p))) (doc ! ln))"
  using assms
proof (induction ps arbitrary: doc)
  case Nil
  then show ?case by (simp add: make_edits_def)
next
  case (Cons p ps)
  have step: "make_edits rm (p # ps) doc = make_edits rm ps (edit_position rm p doc)"
    by (simp add: make_edits_def)
  from Cons.prems have d: "distinct (map line ps)" and notin: "line p \<notin> line ` set ps"
    by simp_all
  have ih: "make_edits rm ps (edit_position rm p doc) ! ln =
           (case find (\<lambda>p. line p = ln) ps of
              None \<Rightarrow> edit_position rm p doc ! ln
            | Some q \<Rightarrow> pad (character q) (nat (rm - int (character q))) (edit_position rm p doc ! ln))"
    using Cons.IH [OF d, of "edit_position rm p doc"] Cons.prems(2) by simp
  show ?case
  proof (cases "line p = ln")
    case True
    with notin have "ln \<notin> line ` set ps"
      by simp
    then have "find (\<lambda>p. line p = ln) ps = None"
      unfolding find_None_iff by blast
    with True ih Cons.prems(2) show ?thesis
      by (simp add: step nth_edit_position)
  next
    case False
    with ih Cons.prems(2) show ?thesis
      by (simp add: step nth_edit_position split: option.splits)
  qed
qed

lemma insertions_filter:
  "insertions rm ps =
     map (\<lambda>p. (p, nat (rm - int (character p)))) (filter (\<lambda>p. int (character p) < rm) ps)"
  by (induction ps) (auto simp: insertions_def map_filter_simps Let_def)

lemma make_edits_insertions:
  "make_edits rm ps doc = apply_insertions (insertions rm ps) doc"
  by (induction ps arbitrary: doc)
    (auto simp: make_edits_def apply_insertions_def insertions_def map_filter_simps
       edit_position_def Let_def)

lemma rightmost_of_Max:
  "rightmost_of rm ps = Max (insert rm (int ` character ` set ps))"
proof (induction ps arbitrary: rm)
  case Nil
  then show ?case by simp
next
  case (Cons p ps)
  have "rightmost_of rm (p # ps) = rightmost_of (max rm (int (character p))) ps"
    by (simp add: rightmost_of_def max_def)
  also have "\<dots> = Max (insert (max rm (int (character p))) (int ` character ` set ps))"
    by (rule Cons.IH)
  also have "\<dots> = Max (insert rm (int ` character ` set (p # ps)))"
    by (cases "set ps = {}") (simp_all add: max.assoc)
  finally show ?case .
qed

lemma rightmost_of_positions:
  assumes "ps \<noteq> []"
  shows "rightmost_of (- 1) ps = Max (int ` character ` set ps)"
proof -
  let ?S = "int ` character ` set ps"
  have fin: "finite ?S" and ne: "?S \<noteq> {}" using assms by simp_all
  have "0 \<le> Max ?S"
    using fin ne by (auto simp: Max_ge_iff)
  then have "max (- 1) (Max ?S) = Max ?S" by simp
  with fin ne show ?thesis
    by (simp add: rightmost_of_Max)
qed

lemma rightmost_of_ge: "p \<in> set ps \<Longrightarrow> int (character p) \<le> rightmost_of rm ps"
  by (simp add: rightmost_of_Max)

lemma line_match_line: "line_match m doc r ln = Some p \<Longrightarrow> line p = ln"
  by (auto simp: line_match_def split: prod.splits)

lemma map_line_map_filter:
  "map line (List.map_filter (line_match m doc r) lns) =
     filter (\<lambda>ln. line_match m doc r ln \<noteq> None) lns"
  by (induction lns) (auto simp: map_filter_simps line_match_line split: option.splits)

lemma map_line_matches_of:
  "map line (matches_of m doc ranges) =
     concat (map (\<lambda>r. filter (\<lambda>ln. line_match m doc r ln \<noteq> None) (range_lines r)) ranges)"
  by (simp add: matches_of_def matches_of_range_def map_concat comp_def map_line_map_filter)

lemma distinct_concat_filter:
  "distinct (concat (map f rs)) \<Longrightarrow> distinct (concat (map (\<lambda>r. filter (P r) (f r)) rs))"
  by (induction rs) auto

lemma distinct_lines_matches_of:
  "distinct (scanned_lines ranges) \<Longrightarrow> distinct (map line (matches_of m doc ranges))"
  unfolding map_line_matches_of scanned_lines_def by (rule distinct_concat_filter)

lemma lines_matches_of_subset:
  "set (map line (matches_of m doc ranges)) \<subseteq> set (scanned_lines ranges)"
  unfolding map_line_matches_of scanned_lines_def by auto

lemma apply_insertions_permuted:
  assumes "distinct (map (line \<circ> fst) ins)" and "mset ins' = mset ins"
  shows "apply_insertions ins' doc = apply_insertions ins doc"
proof -
  let ?f = "\<lambda>(p, n). insert_text p (spaces n)"
  have "?f x \<circ> ?f y = ?f y \<circ> ?f x" if "x \<in> set ins" and "y \<in> set ins" for x y
  proof (cases "x = y")
    case True
    then show ?thesis by simp
  next
    case False
    with that assms(1) have "line (fst x) \<noteq> line (fst y)"
      by (auto simp: distinct_map inj_on_def)
    then show ?thesis
      by (cases x, cases y) (auto simp: fun_eq_iff insert_text_commute)
  qed
  then have "fold ?f ins = fold ?f ins'"
    using assms(2) by (intro fold_multiset_equiv) simp_all
  then show ?thesis
    by (simp add: apply_insertions_def)
qed

lemma find_distinct:
  "distinct (map f xs) \<Longrightarrow> x \<in> set xs \<Longrightarrow> find (\<lambda>y. f y = f x) xs = Some x"
  by (induction xs) (auto simp: rev_image_eqI)

lemma scan_result:
  assumes "createRegExp compile arg h = (Some p, h')"
    and "find_positions p doc ranges = Inr (p', positions, M)"
  shows "in_document doc ranges \<and> p' = p \<and> positions = matches_of (matcher p) doc ranges
       \<and> M = rightmost_of (- 1) positions"
proof -
  from createRegExp_Some [OF assms(1)] have flags: "\<not> global p" "\<not> sticky p" by simp_all
  from find_positions_Inr [OF assms(2)] have ind: "in_document doc ranges" .
  from find_positions_flagless [OF flags ind] assms(2) ind show ?thesis by simp
qed

lemma positions_in_document:
  assumes "in_document doc ranges" and "q \<in> set (matches_of m doc ranges)"
  shows "line q < length doc"
proof -
  from assms(2) have "line q \<in> set (map line (matches_of m doc ranges))" by simp
  with lines_matches_of_subset have "line q \<in> set (scanned_lines ranges)" by blast
  with assms(1) show ?thesis
    by (auto simp: in_document_def scanned_lines_def)
qed

subsection \<open>Evaluating the larger documents\<close>

lemmas scan_eval =
  find_positions_def scan_range_def scan_line_def lineAt_def selected_part_def
  substring_def substring_from_def exec_def search.simps assignment_pattern_def
  assignment_matcher_def atom_matches_def upt_conv_Cons

lemma get_ranges_six_lines:
  "get_ranges six_lines [Selection (Position 0 0) (Position 0 0)] = Inr [six_lines_range]"
  by (simp add: get_ranges_def whole_document_eq selection_eval six_lines_def six_lines_range_def)

lemma find_positions_six_lines:
  "find_positions assignment_pattern six_lines [six_lines_range] =
     Inr (assignment_pattern, six_lines_positions, 3)"
  by (simp add: scan_eval six_lines_def six_lines_range_def six_lines_positions_def)

lemma get_ranges_span:
  "get_ranges span_document [span_selection] = Inr [span_range]"
  by (simp add: get_ranges_def selected_ranges_def each_selection_def claim_line_def has_def
        add_def selection_eval span_selection_def span_range_def upt_conv_Cons)

subsection \<open>The fallback pattern\<close>

lemma fragment_fallback: "fragment_compile ''/[/*]'' = Inr fallback_matcher"
  by (simp add: fragment_compile_def fallback_matcher_def cons_atom_def)

lemma fallback_matcher_iff: "fallback_matcher s i \<noteq> None \<longleftrightarrow> comment_start_at s i"
  by (auto simp: fallback_matcher_def comment_start_at_def atom_matches_def)

lemma find_snoc_False: "\<not> P y \<Longrightarrow> find P (xs @ [y]) = find P xs"
  by (induction xs) simp_all

lemma leftmost_fallback: "leftmost fallback_matcher s = first_comment_start s"
proof -
  have "(\<lambda>i. fallback_matcher s i \<noteq> None) = comment_start_at s"
    by (rule ext) (rule fallback_matcher_iff)
  then have "leftmost fallback_matcher s = find (comment_start_at s) [0 ..< length s + 1]"
    by (simp only: leftmost_def)
  also have "\<dots> = find (comment_start_at s) ([0 ..< length s] @ [length s])"
    by simp
  also have "\<dots> = find (comment_start_at s) [0 ..< length s]"
    by (rule find_snoc_False) (simp add: comment_start_at_def)
  finally show ?thesis
    by (simp add: first_comment_start_def)
qed

lemma createRegExp_fallback:
  "createRegExp fragment_compile (Str ''/[/*]'') h = (Some fallback_pattern, h)"
  by (simp add: createRegExp_def compile_or_report_def new_RegExp_def fragment_fallback
        fallback_pattern_def EscapeRegExpPattern_def)

lemma leftmost_fallback_none:
  "leftmost fallback_matcher ''a / b'' = None"
  "leftmost fallback_matcher ''c * d'' = None"
  by (simp_all add: leftmost_def fallback_matcher_def atom_matches_def upt_conv_Cons)

lemma comment_pattern_unlisted:
  "map_of COMMENT_PATTERNS lang = None \<Longrightarrow> comment_pattern lang = ''/[/*]''"
  by (simp add: comment_pattern_def)

lemma javascript_unlisted: "map_of COMMENT_PATTERNS ''javascript'' = None"
  by (simp add: COMMENT_PATTERNS_def)

lemma leftmost_fallback_demo:
  "leftmost fallback_matcher ''x * 2 // c'' = Some 6"
  "leftmost fallback_matcher ''yy // d'' = Some 3"
  "leftmost fallback_matcher ''a / b'' = None"
  by (simp_all add: leftmost_def fallback_matcher_def atom_matches_def upt_conv_Cons)

lemma first_slash_or_star_demo:
  "first_slash_or_star ''x * 2 // c'' = Some 2"
  "first_slash_or_star ''a / b'' = Some 2"
  by (simp_all add: first_slash_or_star_def upt_conv_Cons)

lemma first_comment_start_demo:
  "first_comment_start ''x * 2 // c'' = Some 6"
  by (simp add: first_comment_start_def comment_start_at_def upt_conv_Cons)

lemma alignComments_demo: "alignComments fragment_compile comment_host = Inr comment_host_aligned"
  by (simp add: alignComments_def comment_host_def comment_host_aligned_def
        comment_pattern_unlisted javascript_unlisted alignCustomPattern_def createRegExp_def
        compile_or_report_def new_RegExp_def fragment_fallback align_editor_def get_ranges_def
        whole_document_eq selection_eval find_positions_def scan_range_def scan_line_def
        lineAt_def selected_part_def substring_def substring_from_def exec_def search.simps
        fallback_matcher_def atom_matches_def upt_conv_Cons make_edits_def edit_position_def
        insert_text_def spaces_def eval_nat_numeral)

subsection \<open>Padding and the leftmost match\<close>


lemma length_pad [simp]: "length (pad c n s) = length s + n"
  by (simp add: pad_def spaces_def)

lemma pad_0 [simp]: "pad c 0 s = s"
  by (simp add: pad_def spaces_def)




subsection \<open>The outcome of a pass\<close>



subsection \<open>Runs of the command on the small document\<close>

lemmas command_eval =
  alignCustomPattern_def createRegExp_def compile_or_report_def new_RegExp_def
  align_editor_def get_ranges_def whole_document_eq selection_eval make_edits_def
  edit_position_def insert_text_def spaces_def


lemma assignment_demo_pass:
  "alignCustomPattern fragment_compile (Str '' = '') demo_host
     = Inr (demo_host_with [''x  = 1'', ''yy = 2''])"
  by (simp add: command_eval scan_eval fragment_assignment demo_host_def demo_host_with_def
        demo_editor_def demo_document_def)



subsection \<open>Padding a line\<close>







subsection \<open>The selected part of a padded line\<close>



subsection \<open>The match and the insertion on a line\<close>







lemma find_Some_set: "find P xs = Some x \<Longrightarrow> x \<in> set xs \<and> P x"
  by (induction xs) (auto split: if_splits)

lemma insertion_on_positive:
  assumes "insertion_on (insertions M ps) ln = Some (at, n)"
  shows "1 \<le> n"
proof -
  from assms have "(at, n) \<in> set (insertions M ps)"
    unfolding insertion_on_def by (auto dest: find_Some_set)
  then show ?thesis
    by (auto simp: insertions_filter)
qed





subsection \<open>The positions of a second pass\<close>







subsection \<open>The ranges of a second pass\<close>








subsection \<open>The pattern of the assignment command under padding, and a second pass\<close>






subsection \<open>Two passes over a selection of two lines\<close>







section \<open>The statements of the specification\<close>

subsection \<open>Cancelling the prompt\<close>

text \<open>
  Claim C8. When the command gets no pattern argument and the input box is cancelled,
  the command ends with the host as it was: no message is shown and the document is not
  edited.
\<close>

theorem cancelled_prompt_is_silent:
  "inputBox h = None \<Longrightarrow> alignCustomPattern compile Undefined h = Inr h"
  by (simp add: alignCustomPattern_def createRegExp_def)

theorem cancelled_prompt_is_silent_witness:
  "inputBox demo_host = None
   \<and> alignCustomPattern fragment_compile Undefined demo_host = Inr demo_host"
proof -
  have h: "inputBox demo_host = None" by (simp add: demo_host_def)
  show ?thesis using h cancelled_prompt_is_silent [OF h, of fragment_compile] by simp
qed

subsection \<open>The pattern object carries no state from line to line\<close>

text \<open>
  Claim C10. Whatever argument and host \<open>createRegExp\<close> is called with, a pattern it
  returns has neither the global nor the sticky flag, so \<open>exec\<close> returns the leftmost
  match of the text it is given and leaves the object as it was. Whatever was scanned
  before (any \<open>positions\<close>, any \<open>rightmostChar\<close>), scanning a line records the leftmost
  match of its selected part, and the scan of all ranges records exactly the leftmost
  matches of the lines, with the object unchanged.
\<close>

theorem pattern_keeps_no_state:
  assumes "createRegExp compile arg h = (Some p, h')"
  shows "\<not> global p \<and> \<not> sticky p
    \<and> exec p s = (leftmost (matcher p) s, p)
    \<and> (ln < length doc \<longrightarrow>
         scan_line doc r ln (p, ps, rm) =
           Inr (p, ps @ List.map_filter (line_match (matcher p) doc r) [ln],
                rightmost_of rm (List.map_filter (line_match (matcher p) doc r) [ln])))
    \<and> (in_document doc ranges \<longrightarrow>
         find_positions p doc ranges =
           Inr (p, matches_of (matcher p) doc ranges,
                rightmost_of (- 1) (matches_of (matcher p) doc ranges)))"
  using createRegExp_Some [OF assms]
  by (simp add: exec_flagless scan_line_flagless find_positions_flagless del: map_filter_simps)

theorem pattern_keeps_no_state_witness:
  "createRegExp fragment_compile (Str '' = '') demo_host = (Some assignment_pattern, demo_host)
   \<and> \<not> global assignment_pattern \<and> \<not> sticky assignment_pattern
   \<and> exec assignment_pattern ''yy = 2'' = (Some 2, assignment_pattern)
   \<and> scan_line demo_document (Range (Position 0 0) (Position 1 6)) 1
        (assignment_pattern, [Position 0 1], 1)
      = Inr (assignment_pattern, [Position 0 1, Position 1 2], 2)
   \<and> find_positions assignment_pattern demo_document [Range (Position 0 0) (Position 1 6)]
      = Inr (assignment_pattern, [Position 0 1, Position 1 2], 2)"
proof -
  let ?r = "Range (Position 0 0) (Position 1 6)"
  have doc: "(1::nat) < length demo_document"
    by (simp add: demo_document_def)
  note made = createRegExp_assignment [of demo_host]
  from pattern_keeps_no_state [OF made, of "''yy = 2''" 1 demo_document ?r
      "[Position 0 1]" 1 "[?r]"] doc in_document_demo
  show ?thesis
    by (simp add: made matcher_assignment_pattern leftmost_assignment_demo
          line_match_assignment_demo [simplified] matches_of_assignment_demo [simplified]
          rightmost_of_def)
qed

subsection \<open>Too few matches\<close>

text \<open>
  Claim C5. Once the pattern is made and the ranges are found, a pattern that matches on
  no scanned line ends the command with the message \<open>NoMatchesFound\<close>, and one that
  matches on exactly one line with \<open>SingleMatchFound\<close>. Both show the text of the pattern
  object, which is the escaped source between two slashes of the string argument or, with
  no argument, of the input. In both the host changes in its messages only, so the
  document is not edited.
\<close>

theorem too_few_matches:
  assumes "createRegExp compile arg h = (Some p, h')"
    and "activeTextEditor h = Some ed"
    and "get_ranges (document ed) (selections ed) = Inr ranges"
    and "in_document (document ed) ranges"
  shows "(length (matches_of (matcher p) (document ed) ranges) = 0 \<longrightarrow>
            alignCustomPattern compile arg h =
              Inr (h\<lparr>errorMessages := errorMessages h @ [NoMatchesFound (regexp_toString p)]\<rparr>))
       \<and> (length (matches_of (matcher p) (document ed) ranges) = 1 \<longrightarrow>
            alignCustomPattern compile arg h =
              Inr (h\<lparr>errorMessages := errorMessages h @ [SingleMatchFound (regexp_toString p)]\<rparr>))
       \<and> (arg = Str src \<longrightarrow> regexp_toString p = ''/'' @ EscapeRegExpPattern src @ ''/'')
       \<and> (arg = Undefined \<longrightarrow> inputBox h = Some src \<longrightarrow>
            regexp_toString p = ''/'' @ EscapeRegExpPattern src @ ''/'')"
proof -
  from createRegExp_Some [OF assms(1)] have flags: "\<not> global p" "\<not> sticky p" by simp_all
  have "alignCustomPattern compile arg h = align_editor p ed h"
    using assms(1,2) by (rule alignCustomPattern_editor)
  moreover note align_editor_flagless [OF flags assms(3,4), of h]
  ultimately show ?thesis
    using createRegExp_toString(1) [of compile src h p h']
      createRegExp_toString(2) [of compile h p h' src] assms(1)
    by (auto simp: Let_def)
qed

theorem too_few_matches_witness:
  "alignCustomPattern fragment_compile (Str '' = '') no_match_host =
     Inr (no_match_host\<lparr>errorMessages := [NoMatchesFound ''/ = /'']\<rparr>)
   \<and> alignCustomPattern fragment_compile (Str '' = '') one_match_host =
     Inr (one_match_host\<lparr>errorMessages := [SingleMatchFound ''/ = /'']\<rparr>)
   \<and> alignCustomPattern fragment_compile (Str ''/[/*]'') slashes_host =
     Inr (slashes_host\<lparr>errorMessages := [NoMatchesFound (''/'' @ backslash # ''/[/*]/'')]\<rparr>)"
proof -
  let ?ed0 = "\<lparr>languageId = ''plaintext'', document = [''a'', ''b'', ''c''],
              selections = [Selection (Position 0 0) (Position 0 0)]\<rparr>"
  let ?r0 = "Range (Position 0 0) (Position 2 1)"
  let ?ed1 = "\<lparr>languageId = ''plaintext'', document = [''x = 1'', ''b''],
              selections = [Selection (Position 0 0) (Position 0 0)]\<rparr>"
  let ?r1 = "Range (Position 0 0) (Position 1 1)"
  let ?ed2 = "\<lparr>languageId = ''javascript'', document = [''a / b'', ''c * d''],
              selections = [Selection (Position 0 0) (Position 0 0)]\<rparr>"
  let ?r2 = "Range (Position 0 0) (Position 1 5)"
  have e0: "activeTextEditor no_match_host = Some ?ed0"
    by (simp add: no_match_host_def)
  have g0: "get_ranges (document ?ed0) (selections ?ed0) = Inr [?r0]"
    by (simp add: get_ranges_def whole_document_eq selection_eval)
  have d0: "in_document (document ?ed0) [?r0]"
    by (simp add: in_document_def range_lines_def)
  have m0: "matches_of (matcher assignment_pattern) (document ?ed0) [?r0] = []"
    by (simp add: matcher_assignment_pattern matches_of_def matches_of_range_def range_lines_def
          upt_conv_Cons line_match_def selected_part_def
          substring_def substring_from_def leftmost_assignment_none)
  have e1: "activeTextEditor one_match_host = Some ?ed1"
    by (simp add: one_match_host_def)
  have g1: "get_ranges (document ?ed1) (selections ?ed1) = Inr [?r1]"
    by (simp add: get_ranges_def whole_document_eq selection_eval)
  have d1: "in_document (document ?ed1) [?r1]"
    by (simp add: in_document_def range_lines_def)
  have m1: "matches_of (matcher assignment_pattern) (document ?ed1) [?r1] = [Position 0 1]"
    by (simp add: matcher_assignment_pattern matches_of_def matches_of_range_def range_lines_def
          upt_conv_Cons line_match_def selected_part_def
          substring_def substring_from_def leftmost_assignment_none leftmost_assignment_demo)
  have e2: "activeTextEditor slashes_host = Some ?ed2"
    by (simp add: slashes_host_def)
  have g2: "get_ranges (document ?ed2) (selections ?ed2) = Inr [?r2]"
    by (simp add: get_ranges_def whole_document_eq selection_eval)
  have d2: "in_document (document ?ed2) [?r2]"
    by (simp add: in_document_def range_lines_def)
  have m2: "matches_of (matcher fallback_pattern) (document ?ed2) [?r2] = []"
    by (simp add: fallback_pattern_def matches_of_def matches_of_range_def range_lines_def
          upt_conv_Cons line_match_def selected_part_def
          substring_def substring_from_def leftmost_fallback_none)
  have s: "regexp_toString assignment_pattern = ''/ = /''"
    "regexp_toString fallback_pattern = ''/'' @ backslash # ''/[/*]/''"
    by (simp_all add: regexp_toString_def assignment_pattern_def fallback_pattern_def)
  from too_few_matches [OF createRegExp_assignment e0 g0 d0] m0
    too_few_matches [OF createRegExp_assignment e1 g1 d1] m1
    too_few_matches [OF createRegExp_fallback e2 g2 d2] m2
  show ?thesis
    by (simp add: s no_match_host_def one_match_host_def slashes_host_def)
qed

subsection \<open>A bare cursor selects the whole document\<close>

text \<open>
  Claim C6. When the only selection is empty, a document of fewer than two lines ends
  the command with \<open>InsufficientLines\<close> and no edit. Otherwise the whole document is the
  one range, from the start of line \<open>0\<close> to the end of the last line; the scan visits
  exactly the lines \<open>0\<close> to \<open>lastLine\<close>, each with its full text, and records the
  leftmost match of each.
\<close>

theorem bare_cursor_whole_document:
  assumes "createRegExp compile arg h = (Some p, h')"
    and "activeTextEditor h = Some ed"
    and "selections ed = [sel]"
    and "isEmpty sel"
  shows "(length (document ed) < 2 \<longrightarrow>
            get_ranges (document ed) (selections ed) = Inl (Shown InsufficientLines)
          \<and> alignCustomPattern compile arg h =
              Inr (h\<lparr>errorMessages := errorMessages h @ [InsufficientLines]\<rparr>))
       \<and> (2 \<le> length (document ed) \<longrightarrow>
            (\<exists>r. get_ranges (document ed) (selections ed) = Inr [r]
               \<and> r = Range (Position 0 0)
                       (Position (length (document ed) - 1)
                          (length (document ed ! (length (document ed) - 1))))
               \<and> scanned_lines [r] = [0 ..< length (document ed)]
               \<and> (\<forall>ln<length (document ed). selected_part r ln (document ed ! ln) = (document ed ! ln, 0))
               \<and> find_positions p (document ed) [r] =
                   Inr (p,
                        List.map_filter
                          (\<lambda>ln. map_option (Position ln) (leftmost (matcher p) (document ed ! ln)))
                          [0 ..< length (document ed)],
                        rightmost_of (- 1)
                          (List.map_filter
                             (\<lambda>ln. map_option (Position ln) (leftmost (matcher p) (document ed ! ln)))
                             [0 ..< length (document ed)]))))"
proof (intro conjI impI)
  assume short: "length (document ed) < 2"
  then show g: "get_ranges (document ed) (selections ed) = Inl (Shown InsufficientLines)"
    using assms(3,4) by (simp add: get_ranges_def whole_document_eq)
  have "alignCustomPattern compile arg h = align_editor p ed h"
    using assms(1,2) by (rule alignCustomPattern_editor)
  with align_editor_no_ranges [OF g, of p h]
  show "alignCustomPattern compile arg h =
          Inr (h\<lparr>errorMessages := errorMessages h @ [InsufficientLines]\<rparr>)"
    by simp
next
  assume long: "2 \<le> length (document ed)"
  let ?doc = "document ed"
  let ?r = "Range (Position 0 0) (Position (length ?doc - 1) (length (?doc ! (length ?doc - 1))))"
  let ?f = "\<lambda>ln. map_option (Position ln) (leftmost (matcher p) (?doc ! ln))"
  from createRegExp_Some [OF assms(1)] have flags: "\<not> global p" "\<not> sticky p" by simp_all
  have g: "get_ranges ?doc (selections ed) = Inr [?r]"
    using assms(3,4) long by (simp add: get_ranges_def whole_document_eq)
  have "length ?doc - 1 + 1 = length ?doc"
    using long by simp
  then have lines: "range_lines ?r = [0 ..< length ?doc]"
    unfolding range_lines_def by (simp only: text_range.sel position.sel)
  have sl: "scanned_lines [?r] = [0 ..< length ?doc]"
    by (simp add: scanned_lines_def lines del: One_nat_def)
  have full: "\<forall>ln<length ?doc. selected_part ?r ln (?doc ! ln) = (?doc ! ln, 0)"
    using whole_document_full_line [OF long] by blast
  have ind: "in_document ?doc [?r]"
    by (simp add: in_document_def lines del: One_nat_def)
  have "List.map_filter (line_match (matcher p) ?doc ?r) [0 ..< length ?doc]
          = List.map_filter ?f [0 ..< length ?doc]"
    by (rule map_filter_eq) (simp add: line_match_def full del: One_nat_def)
  then have ms: "matches_of (matcher p) ?doc [?r] = List.map_filter ?f [0 ..< length ?doc]"
    by (simp add: matches_of_def matches_of_range_def lines del: One_nat_def)
  have fp: "find_positions p ?doc [?r] =
      Inr (p, List.map_filter ?f [0 ..< length ?doc],
           rightmost_of (- 1) (List.map_filter ?f [0 ..< length ?doc]))"
    using find_positions_flagless [OF flags ind] by (simp add: ms del: One_nat_def)
  show "\<exists>r. get_ranges ?doc (selections ed) = Inr [r] \<and> r = ?r
          \<and> scanned_lines [r] = [0 ..< length ?doc]
          \<and> (\<forall>ln<length ?doc. selected_part r ln (?doc ! ln) = (?doc ! ln, 0))
          \<and> find_positions p ?doc [r] =
              Inr (p, List.map_filter ?f [0 ..< length ?doc],
                   rightmost_of (- 1) (List.map_filter ?f [0 ..< length ?doc]))"
    using g sl full fp by (intro exI [of _ ?r]) (simp del: One_nat_def)
qed

theorem bare_cursor_whole_document_witness:
  "get_ranges (document demo_editor) (selections demo_editor)
     = Inr [Range (Position 0 0) (Position 1 6)]
   \<and> scanned_lines [Range (Position 0 0) (Position 1 6)] = [0, 1]
   \<and> find_positions assignment_pattern (document demo_editor) [Range (Position 0 0) (Position 1 6)]
     = Inr (assignment_pattern, [Position 0 1, Position 1 2], 2)
   \<and> alignCustomPattern fragment_compile (Str '' = '') one_line_host
     = Inr (one_line_host\<lparr>errorMessages := [InsufficientLines]\<rparr>)"
proof -
  let ?sel = "Selection (Position 0 0) (Position 0 0)"
  let ?ed1 = "\<lparr>languageId = ''plaintext'', document = [''x = 1''],
              selections = [Selection (Position 0 2) (Position 0 2)]\<rparr>"
  have e: "activeTextEditor demo_host = Some demo_editor"
    by (simp add: demo_host_def)
  have s: "selections demo_editor = [?sel]" "isEmpty ?sel"
    by (simp_all add: demo_editor_def selection_eval)
  have long: "2 \<le> length (document demo_editor)"
    by (simp add: demo_editor_def demo_document_def)
  have r: "Range (Position 0 0)
             (Position (length (document demo_editor) - 1)
                (length (document demo_editor ! (length (document demo_editor) - 1))))
           = Range (Position 0 0) (Position 1 6)"
    by (simp add: demo_editor_def demo_document_def)
  have e1: "activeTextEditor one_line_host = Some ?ed1"
    by (simp add: one_line_host_def)
  have s1: "selections ?ed1 = [Selection (Position 0 2) (Position 0 2)]"
    "isEmpty (Selection (Position 0 2) (Position 0 2))"
    by (simp_all add: selection_eval)
  have short: "length (document ?ed1) < 2"
    by simp
  have ms: "List.map_filter
              (\<lambda>ln. map_option (Position ln) (leftmost assignment_matcher (document demo_editor ! ln)))
              [0 ..< length (document demo_editor)] = [Position 0 1, Position 1 2]"
    by (simp add: demo_editor_def demo_document_def upt_conv_Cons map_filter_simps
          leftmost_assignment_demo)
  from bare_cursor_whole_document [OF createRegExp_assignment e s] long
  have "get_ranges (document demo_editor) (selections demo_editor)
          = Inr [Range (Position 0 0) (Position 1 6)]
      \<and> scanned_lines [Range (Position 0 0) (Position 1 6)] = [0 ..< length (document demo_editor)]
      \<and> find_positions assignment_pattern (document demo_editor) [Range (Position 0 0) (Position 1 6)]
        = Inr (assignment_pattern, [Position 0 1, Position 1 2],
               rightmost_of (- 1) [Position 0 1, Position 1 2])"
    unfolding r matcher_assignment_pattern ms by blast
  moreover from bare_cursor_whole_document [OF createRegExp_assignment e1 s1] short
  have "alignCustomPattern fragment_compile (Str '' = '') one_line_host
     = Inr (one_line_host\<lparr>errorMessages := errorMessages one_line_host @ [InsufficientLines]\<rparr>)"
    by blast
  ultimately show ?thesis
    by (simp add: one_line_host_def rightmost_of_def demo_editor_def demo_document_def
          upt_conv_Cons)
qed

subsection \<open>Two selections on one line\<close>

text \<open>
  Claim C7. When the selections, all inside the document, claim some line twice, the
  command ends with \<open>DuplicateLineSelection\<close> for the first duplicate in the order of
  the claims (the claim at the first index \<open>j\<close> that repeats an earlier one), naming the
  line index plus one; the host changes in its messages only.
\<close>

theorem duplicate_line_selection:
  assumes "createRegExp compile arg h = (Some p, h')"
    and "activeTextEditor h = Some ed"
    and "selections_in_document (document ed) (selections ed)"
    and "\<not> distinct (concat (map claimed_lines (selections ed)))"
  shows "\<exists>j<length (concat (map claimed_lines (selections ed))).
           distinct (take j (concat (map claimed_lines (selections ed))))
         \<and> concat (map claimed_lines (selections ed)) ! j
              \<in> set (take j (concat (map claimed_lines (selections ed))))
         \<and> get_ranges (document ed) (selections ed) =
             Inl (Shown (DuplicateLineSelection (concat (map claimed_lines (selections ed)) ! j + 1)))
         \<and> alignCustomPattern compile arg h =
             Inr (h\<lparr>errorMessages := errorMessages h @
                   [DuplicateLineSelection (concat (map claimed_lines (selections ed)) ! j + 1)]\<rparr>)"
proof -
  let ?xs = "concat (map claimed_lines (selections ed))"
  from assms(4) obtain ln where ln: "first_duplicate [] ?xs = Some ln"
    using first_duplicate_None_iff [of "[]" ?xs] by (cases "first_duplicate [] ?xs") auto
  from first_duplicate_Some [OF ln] obtain j where j: "j < length ?xs" "?xs ! j = ln"
    "ln \<in> set (take j ?xs)" "distinct (take j ?xs)" by auto
  have single: "\<not> (length (selections ed) = 1 \<and> isEmpty (selections ed ! 0))"
  proof
    assume a: "length (selections ed) = 1 \<and> isEmpty (selections ed ! 0)"
    then obtain sel where "selections ed = [sel]" "isEmpty sel"
      by (cases "selections ed") auto
    then have "?xs = [line (selection_start sel)]"
      by (simp add: claimed_lines_empty)
    with assms(4) show False by simp
  qed
  have r: "get_ranges (document ed) (selections ed) = Inl (Shown (DuplicateLineSelection (ln + 1)))"
    using single ln by (auto simp: get_ranges_def selected_ranges_eq [OF assms(3)])
  have "alignCustomPattern compile arg h = align_editor p ed h"
    using assms(1,2) by (rule alignCustomPattern_editor)
  with align_editor_no_ranges [OF r, of p h] j r show ?thesis
    by (intro exI [of _ j]) simp
qed

theorem duplicate_line_selection_witness:
  "get_ranges (document two_cursors_editor) (selections two_cursors_editor) =
     Inl (Shown (DuplicateLineSelection 6))
   \<and> alignCustomPattern fragment_compile (Str '' = '') two_cursors_host =
     Inr (two_cursors_host\<lparr>errorMessages := [DuplicateLineSelection 6]\<rparr>)"
proof -
  have e: "activeTextEditor two_cursors_host = Some two_cursors_editor"
    by (simp add: two_cursors_host_def)
  have xs: "concat (map claimed_lines (selections two_cursors_editor)) = [5, 5]"
    by (simp add: two_cursors_editor_def claimed_lines_def selection_eval)
  have v: "selections_in_document (document two_cursors_editor) (selections two_cursors_editor)"
    by (simp add: selections_in_document_def two_cursors_editor_def six_lines_def selection_eval)
  have d: "\<not> distinct (concat (map claimed_lines (selections two_cursors_editor)))"
    by (simp add: xs)
  from duplicate_line_selection [OF createRegExp_assignment e v d, unfolded xs]
  obtain j where j: "j < length [5, 5::nat]" "[5, 5::nat] ! j \<in> set (take j [5, 5])"
    and r: "get_ranges (document two_cursors_editor) (selections two_cursors_editor) =
             Inl (Shown (DuplicateLineSelection ([5, 5] ! j + 1)))"
       "alignCustomPattern fragment_compile (Str '' = '') two_cursors_host =
             Inr (two_cursors_host\<lparr>errorMessages := errorMessages two_cursors_host @
                   [DuplicateLineSelection ([5, 5] ! j + 1)]\<rparr>)"
    by blast
  from j have "j = 1" by (cases j) auto
  with r show ?thesis by (simp add: two_cursors_host_def)
qed

subsection \<open>The number of spaces in front of each match\<close>

text \<open>
  Claim C3. Let the scan have recorded at least two positions, with \<open>M\<close> its
  \<open>rightmostChar\<close>. Then \<open>M\<close> is the maximum of the recorded columns and some position is
  at column \<open>M\<close>. The insertions are, in order, those of the positions at a column
  \<open>C < M\<close>, each of \<open>M - C \<ge> 1\<close> spaces; after the edits the line of such a position is
  its old text with exactly these spaces put in immediately before column \<open>C\<close>. A position
  that is not left of \<open>M\<close> is at \<open>M\<close>, gets no insertion, and its line stays as it was.
\<close>

theorem padding_plan:
  assumes "createRegExp compile arg h = (Some p, h')"
    and "get_ranges doc sels = Inr ranges"
    and "find_positions p doc ranges = Inr (p', positions, M)"
    and "2 \<le> length positions"
  shows "M = Max (int ` character ` set positions)
       \<and> (\<exists>q\<in>set positions. int (character q) = M)
       \<and> insertions M positions =
           map (\<lambda>q. (q, nat (M - int (character q))))
             (filter (\<lambda>q. int (character q) < M) positions)
       \<and> (\<forall>q\<in>set positions. int (character q) < M \<longrightarrow>
             (q, nat (M - int (character q))) \<in> set (insertions M positions)
           \<and> 1 \<le> nat (M - int (character q))
           \<and> make_edits M positions doc ! line q =
               take (character q) (doc ! line q) @ spaces (nat (M - int (character q)))
                 @ drop (character q) (doc ! line q))
       \<and> (\<forall>q\<in>set positions. \<not> int (character q) < M \<longrightarrow>
             int (character q) = M
           \<and> q \<notin> fst ` set (insertions M positions)
           \<and> make_edits M positions doc ! line q = doc ! line q)"
proof -
  from scan_result [OF assms(1,3)] have ind: "in_document doc ranges"
    and ps: "positions = matches_of (matcher p) doc ranges"
    and M: "M = rightmost_of (- 1) positions" by simp_all
  from assms(4) have ne: "positions \<noteq> []" by auto
  have max: "M = Max (int ` character ` set positions)"
    using M rightmost_of_positions [OF ne] by simp
  have "Max (int ` character ` set positions) \<in> int ` character ` set positions"
    using ne by (intro Max_in) simp_all
  with max have ex: "\<exists>q\<in>set positions. int (character q) = M" by auto
  have le: "int (character q) \<le> M" if "q \<in> set positions" for q
    using that M rightmost_of_ge by simp
  from get_ranges_Inr [OF assms(2)] have "distinct (scanned_lines ranges)" by simp
  then have dl: "distinct (map line positions)"
    unfolding ps by (rule distinct_lines_matches_of)
  have nth: "make_edits M positions doc ! line q =
               pad (character q) (nat (M - int (character q))) (doc ! line q)"
    if "q \<in> set positions" for q
  proof -
    from that ind have "line q < length doc"
      unfolding ps by (rule positions_in_document [rotated])
    from nth_make_edits [OF dl this, of M] find_distinct [OF dl that] show ?thesis by simp
  qed
  have ins: "insertions M positions =
           map (\<lambda>q. (q, nat (M - int (character q))))
             (filter (\<lambda>q. int (character q) < M) positions)"
    by (rule insertions_filter)
  have a: "(q, nat (M - int (character q))) \<in> set (insertions M positions)
           \<and> 1 \<le> nat (M - int (character q))
           \<and> make_edits M positions doc ! line q =
               take (character q) (doc ! line q) @ spaces (nat (M - int (character q)))
                 @ drop (character q) (doc ! line q)"
    if "q \<in> set positions" and "int (character q) < M" for q
    using that nth [OF that(1)] by (auto simp: ins pad_def)
  have b: "int (character q) = M \<and> q \<notin> fst ` set (insertions M positions)
           \<and> make_edits M positions doc ! line q = doc ! line q"
    if "q \<in> set positions" and "\<not> int (character q) < M" for q
    using that nth [OF that(1)] le [OF that(1)] by (auto simp: ins pad_def spaces_def)
  from max ex ins a b show ?thesis by blast
qed

theorem padding_plan_witness:
  "find_positions assignment_pattern six_lines [six_lines_range] =
     Inr (assignment_pattern, six_lines_positions, 3)
   \<and> 3 = Max (int ` character ` set six_lines_positions)
   \<and> insertions 3 six_lines_positions = six_lines_insertions
   \<and> make_edits 3 six_lines_positions six_lines ! 0 = ''a   = 1''
   \<and> make_edits 3 six_lines_positions six_lines ! 2 = ''ccc = 3''"
proof -
  have len: "2 \<le> length six_lines_positions"
    by (simp add: six_lines_positions_def)
  have q0: "Position 0 1 \<in> set six_lines_positions" "int (character (Position 0 1)) < 3"
    and q2: "Position 2 3 \<in> set six_lines_positions" "\<not> int (character (Position 2 3)) < 3"
    by (simp_all add: six_lines_positions_def)
  from padding_plan [OF createRegExp_assignment get_ranges_six_lines find_positions_six_lines len]
  have "3 = Max (int ` character ` set six_lines_positions)"
    and "insertions 3 six_lines_positions =
           map (\<lambda>q. (q, nat (3 - int (character q))))
             (filter (\<lambda>q. int (character q) < 3) six_lines_positions)"
    and "make_edits 3 six_lines_positions six_lines ! line (Position 0 1) =
           take (character (Position 0 1)) (six_lines ! line (Position 0 1))
             @ spaces (nat (3 - int (character (Position 0 1))))
             @ drop (character (Position 0 1)) (six_lines ! line (Position 0 1))"
    and "make_edits 3 six_lines_positions six_lines ! line (Position 2 3) =
           six_lines ! line (Position 2 3)"
    using q0 q2 by blast+
  then show ?thesis
    using find_positions_six_lines
    by (simp add: six_lines_positions_def six_lines_insertions_def six_lines_def spaces_def
          numeral_2_eq_2)
qed

subsection \<open>The part of a line that is searched\<close>

text \<open>
  Claim C4. For a range that the command built and a line of the document, the text
  handed to the pattern is the part the range permits (exact slice, suffix, prefix or
  full line, as \<open>permitted_part\<close> spells out), and scanning the line records the line
  with the column of the leftmost match in that part plus the start column of the part;
  a line with no match leaves the positions and the maximum as they were, with no
  failure.
\<close>

theorem scan_permitted_part:
  assumes "createRegExp compile arg h = (Some p, h')"
    and "get_ranges doc sels = Inr ranges"
    and "r \<in> set ranges"
    and "ln < length doc"
  shows "selected_part r ln (doc ! ln) = permitted_part r ln (doc ! ln)
       \<and> scan_line doc r ln (p, ps, rm) =
           (case permitted_part r ln (doc ! ln) of
              (part, startColumn) \<Rightarrow>
                (case leftmost (matcher p) part of
                   None \<Rightarrow> Inr (p, ps, rm)
                 | Some offset \<Rightarrow>
                     Inr (p, ps @ [Position ln (offset + startColumn)],
                          if rm < int (offset + startColumn) then int (offset + startColumn)
                          else rm)))"
proof -
  from createRegExp_Some [OF assms(1)] have flags: "\<not> global p" "\<not> sticky p" by simp_all
  from get_ranges_Inr [OF assms(2)] assms(3)
  have "\<not> isBefore (range_end r) (range_start r)" by blast
  then have sp: "selected_part r ln (doc ! ln) = permitted_part r ln (doc ! ln)"
    by (rule selected_part_permitted)
  show ?thesis
    using sp
    by (auto simp: scan_line_flagless [OF flags assms(4)] line_match_def map_filter_single
          rightmost_of_single split: prod.splits option.splits simp del: map_filter_simps)
qed

theorem scan_permitted_part_witness:
  "get_ranges span_document [span_selection] = Inr [span_range]
   \<and> selected_part span_range 0 (span_document ! 0) = (''1 = 2'', 5)
   \<and> scan_line span_document span_range 0 (assignment_pattern, [], - 1) =
       Inr (assignment_pattern, [Position 0 6], 6)
   \<and> scan_line span_document span_range 1 (assignment_pattern, [Position 0 6], 6) =
       Inr (assignment_pattern, [Position 0 6, Position 1 1], 6)
   \<and> selected_part span_range 2 (span_document ! 2) = (''dd ='', 0)
   \<and> scan_line span_document span_range 2 (assignment_pattern, [Position 0 6, Position 1 1], 6) =
       Inr (assignment_pattern, [Position 0 6, Position 1 1], 6)"
proof -
  have r: "span_range \<in> set [span_range]" by simp
  have l: "(0::nat) < length span_document" "(1::nat) < length span_document"
    "(2::nat) < length span_document"
    by (simp_all add: span_document_def)
  have p: "permitted_part span_range 0 (span_document ! 0) = (''1 = 2'', 5)"
    "permitted_part span_range (Suc 0) (span_document ! Suc 0) = (''c = 3'', 0)"
    "permitted_part span_range 2 (span_document ! 2) = (''dd ='', 0)"
    by (simp_all add: permitted_part_def span_range_def span_document_def)
  have m: "leftmost (matcher assignment_pattern) ''1 = 2'' = Some 1"
    "leftmost (matcher assignment_pattern) ''c = 3'' = Some 1"
    "leftmost (matcher assignment_pattern) ''dd ='' = None"
    by (simp_all add: matcher_assignment_pattern leftmost_def assignment_matcher_def
          atom_matches_def upt_conv_Cons)
  note t = scan_permitted_part [OF createRegExp_assignment get_ranges_span r]
  from t [OF l(1), of "[]" "- 1"] t [OF l(2), of "[Position 0 6]" 6]
    t [OF l(3), of "[Position 0 6, Position 1 1]" 6]
  show ?thesis
    by (simp add: get_ranges_span p m)
qed

subsection \<open>One position per line, and insertions in any order\<close>

text \<open>
  Claim C9. The lines of the recorded positions are pairwise different and are among the
  lines the ranges run over. So the insertions are on pairwise different lines, the edits
  of the command are these insertions applied in order, and applying them in any other
  order (any list with the same elements) gives the same document.
\<close>

theorem insertions_independent:
  assumes "createRegExp compile arg h = (Some p, h')"
    and "get_ranges doc sels = Inr ranges"
    and "find_positions p doc ranges = Inr (p', positions, M)"
  shows "distinct (map line positions)
       \<and> set (map line positions) \<subseteq> set (scanned_lines ranges)
       \<and> distinct (map (line \<circ> fst) (insertions M positions))
       \<and> make_edits M positions doc = apply_insertions (insertions M positions) doc
       \<and> (\<forall>ins'. mset ins' = mset (insertions M positions) \<longrightarrow>
            apply_insertions ins' doc = apply_insertions (insertions M positions) doc)"
proof -
  from scan_result [OF assms(1,3)]
  have ps: "positions = matches_of (matcher p) doc ranges" by simp
  from get_ranges_Inr [OF assms(2)] have "distinct (scanned_lines ranges)" by simp
  then have dl: "distinct (map line positions)"
    unfolding ps by (rule distinct_lines_matches_of)
  have sub: "set (map line positions) \<subseteq> set (scanned_lines ranges)"
    unfolding ps by (rule lines_matches_of_subset)
  have "map (line \<circ> fst) (insertions M positions) =
          map line (filter (\<lambda>q. int (character q) < M) positions)"
    by (simp add: insertions_filter comp_def)
  with dl have di: "distinct (map (line \<circ> fst) (insertions M positions))"
    by (simp add: distinct_map_filter)
  from dl sub di make_edits_insertions [of M positions doc] apply_insertions_permuted [OF di]
  show ?thesis by blast
qed

theorem insertions_independent_witness:
  "distinct (map line six_lines_positions)
   \<and> insertions 3 six_lines_positions = six_lines_insertions
   \<and> make_edits 3 six_lines_positions six_lines = six_lines_aligned
   \<and> apply_insertions six_lines_insertions six_lines = six_lines_aligned
   \<and> apply_insertions (rev six_lines_insertions) six_lines = six_lines_aligned"
proof -
  have i: "insertions 3 six_lines_positions = six_lines_insertions"
    by (simp add: insertions_def six_lines_positions_def six_lines_insertions_def
          map_filter_simps)
  have a: "apply_insertions six_lines_insertions six_lines = six_lines_aligned"
    by (simp add: apply_insertions_def six_lines_insertions_def six_lines_def
          six_lines_aligned_def insert_text_def spaces_def numeral_2_eq_2)
  have m: "mset (rev six_lines_insertions) = mset (insertions 3 six_lines_positions)"
    by (simp add: i)
  from insertions_independent [OF createRegExp_assignment get_ranges_six_lines
      find_positions_six_lines] m
  have "distinct (map line six_lines_positions)"
    and "make_edits 3 six_lines_positions six_lines =
           apply_insertions (insertions 3 six_lines_positions) six_lines"
    and "apply_insertions (rev six_lines_insertions) six_lines =
           apply_insertions (insertions 3 six_lines_positions) six_lines"
    by blast+
  then show ?thesis
    by (simp add: i a)
qed

subsection \<open>The fallback of the comment command\<close>

text \<open>
  Claim C1, as the specification states it: for a language that the table does not list,
  the command uses a pattern that matches the first slash or star of the line. It does
  not. For \<open>javascript\<close> the pattern is \<open>/[/*]\<close>; in \<open>x * 2 // c\<close> it matches at
  column 6, not at the star in column 2, and in \<open>a / b\<close> it matches nowhere although
  there is a slash. The command aligns the two \<open>//\<close> of the example document.
\<close>

theorem bare_slash_or_star_counterexample:
  "map_of COMMENT_PATTERNS ''javascript'' = None
   \<and> fragment_compile (comment_pattern ''javascript'') = Inr fallback_matcher
   \<and> leftmost fallback_matcher ''x * 2 // c'' = Some 6
   \<and> first_slash_or_star ''x * 2 // c'' = Some 2
   \<and> leftmost fallback_matcher ''x * 2 // c'' \<noteq> first_slash_or_star ''x * 2 // c''
   \<and> leftmost fallback_matcher ''a / b'' = None
   \<and> first_slash_or_star ''a / b'' = Some 2
   \<and> alignComments fragment_compile comment_host = Inr comment_host_aligned"
  by (simp add: javascript_unlisted comment_pattern_unlisted fragment_fallback
        leftmost_fallback_demo first_slash_or_star_demo alignComments_demo)

text \<open>
  Claim C1, amended. For a language that the table does not list, the lookup gives the
  pattern \<open>/[/*]\<close>. It compiles, and its leftmost match in a text is the first slash
  that is immediately followed by a slash or a star. The comment command then is the
  custom-pattern command with this pattern.
\<close>

theorem fallback_comment_pattern:
  assumes "map_of COMMENT_PATTERNS lang = None"
  shows "comment_pattern lang = ''/[/*]''
       \<and> fragment_compile (comment_pattern lang) = Inr fallback_matcher
       \<and> leftmost fallback_matcher s = first_comment_start s
       \<and> (activeTextEditor h = Some ed \<and> languageId ed = lang \<longrightarrow>
            alignComments compile h = alignCustomPattern compile (Str ''/[/*]'') h)"
  using assms
  by (simp add: comment_pattern_unlisted fragment_fallback leftmost_fallback alignComments_def)

theorem fallback_comment_pattern_witness:
  "map_of COMMENT_PATTERNS ''javascript'' = None
   \<and> comment_pattern ''javascript'' = ''/[/*]''
   \<and> fragment_compile (comment_pattern ''javascript'') = Inr fallback_matcher
   \<and> leftmost fallback_matcher ''x * 2 // c'' = Some 6
   \<and> alignCustomPattern fragment_compile (Str ''/[/*]'') comment_host = Inr comment_host_aligned"
proof -
  let ?ed = "\<lparr>languageId = ''javascript'', document = [''x * 2 // c'', ''yy // d''],
              selections = [Selection (Position 0 0) (Position 0 0)]\<rparr>"
  have e: "activeTextEditor comment_host = Some ?ed \<and> languageId ?ed = ''javascript''"
    by (simp add: comment_host_def)
  from fallback_comment_pattern [OF javascript_unlisted, of "''x * 2 // c''" comment_host ?ed
      fragment_compile] e
  show ?thesis
    by (simp add: javascript_unlisted first_comment_start_demo alignComments_demo
          fragment_fallback)
qed

subsection \<open>A second pass\<close>




end
